theory Spec2Isabelle
  imports Main
begin

section \<open>Python values and exceptions\<close>

text \<open>
  The adapter of \<^verbatim>\<open>src/__init__.py\<close> passes Python values between its caller and the
  vendor library without computing on them, except for two things: the truth value of
  what a vendor set method returns, and the integer RF level. Floating-point values are
  not modelled; a frequency is carried as any other value.
\<close>

datatype pyval = VNone | VBool bool | VInt int | VStr string | VTuple "pyval list"

fun truthy :: "pyval \<Rightarrow> bool" where
  "truthy VNone = False"
| "truthy (VBool b) = b"
| "truthy (VInt i) = (i \<noteq> 0)"
| "truthy (VStr s) = (s \<noteq> [])"
| "truthy (VTuple vs) = (vs \<noteq> [])"

text \<open>
  What code outside this module raises, the vendor library or the imported helper:
  \<open>Error\<close> is an instance of a subclass of Python's \<open>Exception\<close>, and \<open>BaseError\<close> is
  anything else that can be raised (\<open>KeyboardInterrupt\<close>, \<open>SystemExit\<close>, an old-style class).
\<close>

datatype vraise = Error string | BaseError string

text \<open>
  The exceptions the adapter can end with. \<open>KeyError\<close> and \<open>IndexError\<close> come from
  Python's own lookups, \<open>Exception\<close> and \<open>ObservatoryError\<close> are the two that \<open>set_p\<close>
  raises itself (with the parameter name and the message), and \<open>Raised\<close> wraps what the
  vendor library or the imported helper raised.
\<close>

datatype exn =
    KeyError pyval
  | IndexError
  | Exception string string
  | ObservatoryError string string
  | Raised vraise

text \<open>What \<^verbatim>\<open>except Exception\<close> (line 240) catches: everything but a \<open>BaseError\<close>.\<close>

fun caught :: "exn \<Rightarrow> bool" where
  "caught (Raised (BaseError m)) = False"
| "caught e = True"

section \<open>The vendor library\<close>

text \<open>
  \<^verbatim>\<open>valon_synth\<close> is a third-party module. Its two channel constants, the methods the
  adapter puts into its dispatch tables, and the calls made to them are named here; what
  the methods do is a parameter of every definition below.
\<close>

datatype synth_const = SYNTH_A | SYNTH_B

datatype get_method =
  get_frequency | get_rf_level | get_phase_lock | get_label | get_vco_range | get_options

datatype set_method =
  set_frequency | set_rf_level | set_label | set_vco_range | set_options

text \<open>A call of a vendor method: the channel constant, and for a set method the
  positional and the keyword arguments.\<close>

datatype call =
    GetCall get_method synth_const
  | SetCall set_method synth_const "pyval list" "(string \<times> pyval) list"

text \<open>
  The environment of the adapter. \<open>vget\<close> and \<open>vset\<close> run a vendor method on the state
  \<open>'hw\<close> of the serial connection and the instrument behind it; they return the new state
  and either a value or what was raised. \<open>rfl_rev_table_keys\<close> is what
  \<^verbatim>\<open>self.rfl_rev_table.keys()\<close> returns, and \<open>keys_order\<close> is the order in which Python
  enumerates \<^verbatim>\<open>self.__get_tasks__.keys()\<close>.
\<close>

record 'hw vendor =
  vget :: "get_method \<Rightarrow> synth_const \<Rightarrow> 'hw \<Rightarrow> (vraise + pyval) \<times> 'hw"
  vset :: "set_method \<Rightarrow> synth_const \<Rightarrow> pyval list \<Rightarrow> (string \<times> pyval) list \<Rightarrow> 'hw
             \<Rightarrow> (vraise + pyval) \<times> 'hw"
  rfl_rev_table_keys :: "int list"
  keys_order :: "string list"

section \<open>The imported helper\<close>

text \<open>Modelled from the spec: \<^verbatim>\<open>nearest_index\<close> is imported from the package
  \<^verbatim>\<open>Data_Reduction\<close>, which is not under \<^verbatim>\<open>src/\<close>. The spec names what it does, "look up
  nearest table key": \<open>nearest_index_spec\<close> is the index of the entry of the list nearest
  to the value, the first one among equally near entries (0 on the empty list, which has
  none). Numbers are integers; floating-point levels are not modelled.
\<close>

fun nearest_index_spec :: "int list \<Rightarrow> int \<Rightarrow> nat" where
  "nearest_index_spec [] v = 0"
| "nearest_index_spec [k] v = 0"
| "nearest_index_spec (k # ks) v =
    (let j = nearest_index_spec ks v in if \<bar>k - v\<bar> \<le> \<bar>ks ! j - v\<bar> then 0 else Suc j)"

text \<open>Modelled from the spec: the call \<^verbatim>\<open>nearest_index(pkeys, args[0])\<close> of line 236, which
  returns the index above. The spec says nothing of a call with no nearest entry, an
  empty list or a value that is not a number; the helper is taken to raise there.
\<close>

definition nearest_index :: "int list \<Rightarrow> pyval \<Rightarrow> vraise + int" where
  "nearest_index xs v =
    (case v of
       VInt x \<Rightarrow>
         if xs = [] then Inl (Error ''ValueError'') else Inr (int (nearest_index_spec xs x))
     | _ \<Rightarrow> Inl (Error ''TypeError''))"

section \<open>The adapter Valon5007\<close>

text \<open>The module-level dictionary \<^verbatim>\<open>synth\<close> (lines 45 to 47).\<close>

definition synth :: "int \<rightharpoonup> synth_const" where
  "synth = [1 \<mapsto> SYNTH_A, 2 \<mapsto> SYNTH_B]"

text \<open>The dispatch tables \<^verbatim>\<open>__get_tasks__\<close> and \<^verbatim>\<open>__set_tasks__\<close> as \<^verbatim>\<open>__init__\<close>
  fills them (lines 151 to 165): the dictionary literal first, then the three entries
  added for the Valon5007.\<close>

definition get_tasks :: "(string \<times> get_method) list" where
  "get_tasks =
    [(''frequency'', get_frequency), (''rf_level'', get_rf_level),
     (''phase lock'', get_phase_lock)]
    @ [(''label'', get_label), (''VCO range'', get_vco_range), (''options'', get_options)]"

definition set_tasks :: "(string \<times> set_method) list" where
  "set_tasks =
    [(''frequency'', set_frequency), (''rf_level'', set_rf_level)]
    @ [(''label'', set_label), (''VCO range'', set_vco_range), (''options'', set_options)]"

text \<open>
  The state of a \<open>Valon5007\<close> object: the connection inherited from the vendor class, the
  cache \<^verbatim>\<open>self.status\<close> (a dictionary of dictionaries), and a journal of the vendor calls
  made so far. The journal is not in the source; it records what is passed to the vendor.
\<close>

record 'hw valon5007 =
  conn :: 'hw
  status :: "int \<rightharpoonup> (string \<rightharpoonup> pyval)"
  trace :: "call list"

definition call_get ::
  "'hw vendor \<Rightarrow> get_method \<Rightarrow> synth_const \<Rightarrow> 'hw valon5007 \<Rightarrow> (exn + pyval) \<times> 'hw valon5007"
where
  "call_get env task s st =
    (case vget env task s (conn st) of
       (r, h) \<Rightarrow>
         (case r of Inl x \<Rightarrow> Inl (Raised x) | Inr v \<Rightarrow> Inr v,
          st\<lparr>conn := h, trace := trace st @ [GetCall task s]\<rparr>))"

definition call_set ::
  "'hw vendor \<Rightarrow> set_method \<Rightarrow> synth_const \<Rightarrow> pyval list \<Rightarrow> (string \<times> pyval) list
     \<Rightarrow> 'hw valon5007 \<Rightarrow> (exn + pyval) \<times> 'hw valon5007"
where
  "call_set env task s args kwargs st =
    (case vset env task s args kwargs (conn st) of
       (r, h) \<Rightarrow>
         (case r of Inl x \<Rightarrow> Inl (Raised x) | Inr v \<Rightarrow> Inr v,
          st\<lparr>conn := h, trace := trace st @ [SetCall task s args kwargs]\<rparr>))"

text \<open>The assignment \<^verbatim>\<open>self.status[synth_id][param] = v\<close>, evaluated after its right-hand
  side, and the read of the same entry that follows it.\<close>

definition store ::
  "'hw valon5007 \<Rightarrow> int \<Rightarrow> string \<Rightarrow> pyval \<Rightarrow> (exn + pyval) \<times> 'hw valon5007"
where
  "store st synth_id param v =
    (case status st synth_id of
       None \<Rightarrow> (Inl (KeyError (VInt synth_id)), st)
     | Some d \<Rightarrow> (Inr v, st\<lparr>status := (status st)(synth_id \<mapsto> d(param \<mapsto> v))\<rparr>))"

text \<open>\<^verbatim>\<open>get_p\<close> (lines 197 to 214).\<close>

definition get_p ::
  "'hw vendor \<Rightarrow> 'hw valon5007 \<Rightarrow> string \<Rightarrow> int \<Rightarrow> (exn + pyval) \<times> 'hw valon5007"
where
  "get_p env st param synth_id =
    (case synth synth_id of
       None \<Rightarrow> (Inl (KeyError (VInt synth_id)), st)
     | Some s \<Rightarrow>
         (case map_of get_tasks param of
            None \<Rightarrow> (Inl (KeyError (VStr param)), st)
          | Some task \<Rightarrow>
              (case call_get env task s st of
                 (Inl e, st1) \<Rightarrow> (Inl e, st1)
               | (Inr v, st1) \<Rightarrow> store st1 synth_id param v)))"

text \<open>Python's list indexing: a negative index counts from the end.\<close>

definition py_index :: "'a list \<Rightarrow> int \<Rightarrow> exn + 'a" where
  "py_index xs i =
    (if 0 \<le> i \<and> i < int (length xs) then Inr (xs ! nat i)
     else if - int (length xs) \<le> i \<and> i < 0 then Inr (xs ! nat (int (length xs) + i))
     else Inl IndexError)"

text \<open>The correction of the requested RF level (lines 234 to 237): the keys of the
  table sorted, the index the helper returns for \<^verbatim>\<open>args[0]\<close>, and the one-element
  tuple that replaces \<^verbatim>\<open>args\<close>. All of it stands before the \<^verbatim>\<open>try\<close>.\<close>

definition rf_level_args :: "'hw vendor \<Rightarrow> pyval list \<Rightarrow> exn + pyval list" where
  "rf_level_args env args =
    (let pkeys = sort (rfl_rev_table_keys env) in
     case args of
       [] \<Rightarrow> Inl IndexError
     | v # _ \<Rightarrow>
         (case nearest_index pkeys v of
            Inl x \<Rightarrow> Inl (Raised x)
          | Inr best_key \<Rightarrow>
              (case py_index pkeys best_key of
                 Inl e \<Rightarrow> Inl e
               | Inr k \<Rightarrow> Inr [VInt k])))"

definition set_p_args :: "'hw vendor \<Rightarrow> string \<Rightarrow> pyval list \<Rightarrow> exn + pyval list" where
  "set_p_args env param args =
    (if param = ''rf_level'' then rf_level_args env args else Inr args)"

text \<open>\<^verbatim>\<open>set_p\<close> (lines 216 to 248). The lookup of the set task and the vendor call are
  inside the \<^verbatim>\<open>try\<close>, whose handler replaces what it catches. The \<^verbatim>\<open>sleep\<close> has no effect
  on the state.\<close>

definition set_p ::
  "'hw vendor \<Rightarrow> 'hw valon5007 \<Rightarrow> string \<Rightarrow> int \<Rightarrow> pyval list \<Rightarrow> (string \<times> pyval) list
     \<Rightarrow> (exn + pyval) \<times> 'hw valon5007"
where
  "set_p env st param synth_id args kwargs =
    (case synth synth_id of
       None \<Rightarrow> (Inl (KeyError (VInt synth_id)), st)
     | Some s \<Rightarrow>
         (case set_p_args env param args of
            Inl e \<Rightarrow> (Inl e, st)
          | Inr args' \<Rightarrow>
              (case map_of set_tasks param of
                 None \<Rightarrow> (Inl (Exception param ''set failed''), st)
               | Some task \<Rightarrow>
                   (case call_set env task s args' kwargs st of
                      (Inl e, st1) \<Rightarrow>
                        (Inl (if caught e then Exception param ''set failed'' else e), st1)
                    | (Inr success, st1) \<Rightarrow>
                        if truthy success then
                          (case map_of get_tasks param of
                             None \<Rightarrow> (Inl (KeyError (VStr param)), st1)
                           | Some gtask \<Rightarrow>
                               (case call_get env gtask s st1 of
                                  (Inl e, st2) \<Rightarrow> (Inl e, st2)
                                | (Inr v, st2) \<Rightarrow> store st2 synth_id param v))
                        else (Inl (ObservatoryError param ''setting failed''), st1)))))"

text \<open>\<^verbatim>\<open>update_synth_status\<close> (lines 180 to 192): the loop over the keys of
  \<^verbatim>\<open>__get_tasks__\<close>, which an exception of \<open>get_p\<close> leaves, and the dictionary returned.\<close>

fun update_loop ::
  "'hw vendor \<Rightarrow> 'hw valon5007 \<Rightarrow> int \<Rightarrow> string list \<Rightarrow> (exn + unit) \<times> 'hw valon5007"
where
  "update_loop env st synth_id [] = (Inr (), st)"
| "update_loop env st synth_id (param # params) =
    (case get_p env st param synth_id of
       (Inl e, st1) \<Rightarrow> (Inl e, st1)
     | (Inr v, st1) \<Rightarrow> update_loop env st1 synth_id params)"

definition update_synth_status ::
  "'hw vendor \<Rightarrow> 'hw valon5007 \<Rightarrow> int \<Rightarrow> (exn + (string \<rightharpoonup> pyval)) \<times> 'hw valon5007"
where
  "update_synth_status env st synth_id =
    (case update_loop env st synth_id (keys_order env) of
       (Inl e, st1) \<Rightarrow> (Inl e, st1)
     | (Inr u, st1) \<Rightarrow>
         (case status st1 synth_id of
            None \<Rightarrow> (Inl (KeyError (VInt synth_id)), st1)
          | Some d \<Rightarrow> (Inr d, st1)))"

text \<open>\<^verbatim>\<open>__init__\<close> (lines 142 to 173), from the state \<open>h\<close> of the connection once the
  vendor class has opened it: the empty cache of both channels, then the loop over the
  two channel numbers.\<close>

fun init_loop ::
  "'hw vendor \<Rightarrow> 'hw valon5007 \<Rightarrow> int list \<Rightarrow> (exn + unit) \<times> 'hw valon5007"
where
  "init_loop env st [] = (Inr (), st)"
| "init_loop env st (synth_id # ids) =
    (case update_synth_status env st synth_id of
       (Inl e, st1) \<Rightarrow> (Inl e, st1)
     | (Inr d, st1) \<Rightarrow> init_loop env st1 ids)"

definition Valon5007_init :: "'hw vendor \<Rightarrow> 'hw \<Rightarrow> (exn + unit) \<times> 'hw valon5007" where
  "Valon5007_init env h =
    init_loop env \<lparr>conn = h, status = [1 \<mapsto> Map.empty, 2 \<mapsto> Map.empty], trace = []\<rparr> [1, 2]"

section \<open>The two facades\<close>

text \<open>
  \<open>Valon1\<close> and \<open>Valon2\<close> each hold a \<open>Valon5007\<close> in \<^verbatim>\<open>self.hw\<close>. Their attribute
  \<^verbatim>\<open>self.status\<close> is the dictionary object \<^verbatim>\<open>self.hw.status[1]\<close> (or 2) itself, which the
  adapter updates in place, so it is read from the adapter's state.
\<close>

datatype 'hw Valon1 = Valon1 (hw1: "'hw valon5007")

datatype 'hw Valon2 = Valon2 (hw2: "'hw valon5007")

definition Valon1_status :: "'hw Valon1 \<Rightarrow> (string \<rightharpoonup> pyval) option" where
  "Valon1_status self = status (hw1 self) 1"

definition Valon2_status :: "'hw Valon2 \<Rightarrow> (string \<rightharpoonup> pyval) option" where
  "Valon2_status self = status (hw2 self) 2"

definition Valon1_get_p ::
  "'hw vendor \<Rightarrow> 'hw Valon1 \<Rightarrow> string \<Rightarrow> (exn + pyval) \<times> 'hw Valon1"
where
  "Valon1_get_p env self param =
    (case get_p env (hw1 self) param 1 of (r, st) \<Rightarrow> (r, Valon1 st))"

definition Valon1_set_p ::
  "'hw vendor \<Rightarrow> 'hw Valon1 \<Rightarrow> string \<Rightarrow> pyval list \<Rightarrow> (string \<times> pyval) list
     \<Rightarrow> (exn + pyval) \<times> 'hw Valon1"
where
  "Valon1_set_p env self param args kwargs =
    (case set_p env (hw1 self) param 1 args kwargs of (r, st) \<Rightarrow> (r, Valon1 st))"

definition Valon1_update_synth_status ::
  "'hw vendor \<Rightarrow> 'hw Valon1 \<Rightarrow> (exn + (string \<rightharpoonup> pyval)) \<times> 'hw Valon1"
where
  "Valon1_update_synth_status env self =
    (case update_synth_status env (hw1 self) 1 of (r, st) \<Rightarrow> (r, Valon1 st))"

definition Valon2_get_p ::
  "'hw vendor \<Rightarrow> 'hw Valon2 \<Rightarrow> string \<Rightarrow> (exn + pyval) \<times> 'hw Valon2"
where
  "Valon2_get_p env self param =
    (case get_p env (hw2 self) param 2 of (r, st) \<Rightarrow> (r, Valon2 st))"

definition Valon2_set_p ::
  "'hw vendor \<Rightarrow> 'hw Valon2 \<Rightarrow> string \<Rightarrow> pyval list \<Rightarrow> (string \<times> pyval) list
     \<Rightarrow> (exn + pyval) \<times> 'hw Valon2"
where
  "Valon2_set_p env self param args kwargs =
    (case set_p env (hw2 self) param 2 args kwargs of (r, st) \<Rightarrow> (r, Valon2 st))"

definition Valon2_update_synth_status ::
  "'hw vendor \<Rightarrow> 'hw Valon2 \<Rightarrow> (exn + (string \<rightharpoonup> pyval)) \<times> 'hw Valon2"
where
  "Valon2_update_synth_status env self =
    (case update_synth_status env (hw2 self) 2 of (r, st) \<Rightarrow> (r, Valon2 st))"

section \<open>Observations and a simulated instrument\<close>

text \<open>
  \<open>new_calls\<close> gives the vendor calls an operation added to the journal, and \<open>cached\<close>
  reads the entry \<^verbatim>\<open>status[synth_id][param]\<close> of the cache.
\<close>

definition new_calls :: "'hw valon5007 \<Rightarrow> 'hw valon5007 \<Rightarrow> call list" where
  "new_calls st st' = drop (length (trace st)) (trace st')"

definition cached :: "'hw valon5007 \<Rightarrow> int \<Rightarrow> string \<Rightarrow> pyval option" where
  "cached st synth_id param = (case status st synth_id of None \<Rightarrow> None | Some d \<Rightarrow> d param)"

text \<open>
  A simulated instrument, on which the definitions are run. Its state holds for every
  get method and channel the value the method returns. A set method writes its first
  argument where the get method of the same parameter reads it, and returns \<open>True\<close>; it
  returns \<open>False\<close> and writes nothing for an RF level that is not a key of the table and
  for a frequency outside 137 to 4400.
\<close>

fun reads :: "set_method \<Rightarrow> get_method" where
  "reads set_frequency = get_frequency"
| "reads set_rf_level = get_rf_level"
| "reads set_label = get_label"
| "reads set_vco_range = get_vco_range"
| "reads set_options = get_options"

type_synonym sim_hw = "(get_method \<times> synth_const) \<rightharpoonup> pyval"

fun accepts :: "set_method \<Rightarrow> pyval \<Rightarrow> bool" where
  "accepts set_rf_level v = (v \<in> set [VInt (- 4), VInt (- 1), VInt 2, VInt 5])"
| "accepts set_frequency (VInt f) = (137 \<le> f \<and> f \<le> 4400)"
| "accepts set_frequency v = False"
| "accepts t v = True"

definition sim_vendor :: "sim_hw vendor" where
  "sim_vendor =
    \<lparr>vget = (\<lambda>g s h. (case h (g, s) of None \<Rightarrow> Inl (Error ''no reply'') | Some v \<Rightarrow> Inr v, h)),
     vset = (\<lambda>t s args kwargs h.
        case args of
          [] \<Rightarrow> (Inl (Error ''missing argument''), h)
        | v # _ \<Rightarrow>
            if accepts t v then (Inr (VBool True), h((reads t, s) \<mapsto> v))
            else (Inr (VBool False), h)),
     rfl_rev_table_keys = [2, - 4, 5, - 1],
     keys_order = [''VCO range'', ''frequency'', ''label'', ''rf_level'', ''phase lock'', ''options'']\<rparr>"

text \<open>The same instrument with the operator interrupting every set call, and with
  every read left unanswered.\<close>

definition sim_interrupted :: "sim_hw vendor" where
  "sim_interrupted =
    sim_vendor\<lparr>vset := \<lambda>t s args kwargs h. (Inl (BaseError ''KeyboardInterrupt''), h)\<rparr>"

definition sim_silent :: "sim_hw vendor" where
  "sim_silent = sim_vendor\<lparr>vget := \<lambda>g s h. (Inl (Error ''no reply''), h)\<rparr>"

definition sim_hw0 :: sim_hw where
  "sim_hw0 =
    [(get_frequency, SYNTH_A) \<mapsto> VInt 1500, (get_frequency, SYNTH_B) \<mapsto> VInt 2000,
     (get_rf_level, SYNTH_A) \<mapsto> VInt 5, (get_rf_level, SYNTH_B) \<mapsto> VInt (- 4),
     (get_phase_lock, SYNTH_A) \<mapsto> VBool True, (get_phase_lock, SYNTH_B) \<mapsto> VBool False,
     (get_label, SYNTH_A) \<mapsto> VStr ''LO 1'', (get_label, SYNTH_B) \<mapsto> VStr ''LO 2'',
     (get_vco_range, SYNTH_A) \<mapsto> VTuple [VInt 2000, VInt 4400],
     (get_vco_range, SYNTH_B) \<mapsto> VTuple [VInt 2000, VInt 4400],
     (get_options, SYNTH_A) \<mapsto> VTuple [VBool False, VBool False, VInt 1, VBool False],
     (get_options, SYNTH_B) \<mapsto> VTuple [VBool False, VBool False, VInt 1, VBool False]]"

definition sim_st0 :: "sim_hw valon5007" where
  "sim_st0 = \<lparr>conn = sim_hw0, status = [1 \<mapsto> Map.empty, 2 \<mapsto> Map.empty], trace = []\<rparr>"

definition status_inv :: "'hw valon5007 \<Rightarrow> bool" where
  "status_inv st \<longleftrightarrow>
     dom (status st) = {1, 2} \<and>
     (\<forall>i d. status st i = Some d \<longrightarrow> dom d \<subseteq> fst ` set get_tasks)"

definition status_full :: "'hw valon5007 \<Rightarrow> bool" where
  "status_full st \<longleftrightarrow>
     (\<forall>p \<in> fst ` set get_tasks. cached st 1 p \<noteq> None \<and> cached st 2 p \<noteq> None)"

section \<open>Properties\<close>

lemma synth_Some_iff:
  "synth synth_id = Some s \<longleftrightarrow> (synth_id = 1 \<and> s = SYNTH_A) \<or> (synth_id = 2 \<and> s = SYNTH_B)"
  by (auto simp: synth_def)

lemma synth_None_iff: "synth synth_id = None \<longleftrightarrow> synth_id \<noteq> 1 \<and> synth_id \<noteq> 2"
  by (auto simp: synth_def)

lemma call_get_eq:
  "call_get env task s st =
     (case fst (vget env task s (conn st)) of Inl m \<Rightarrow> Inl (Raised m) | Inr v \<Rightarrow> Inr v,
      st\<lparr>conn := snd (vget env task s (conn st)), trace := trace st @ [GetCall task s]\<rparr>)"
  by (simp add: call_get_def split: prod.splits)

lemma call_set_eq:
  "call_set env task s args kwargs st =
     (case fst (vset env task s args kwargs (conn st)) of Inl m \<Rightarrow> Inl (Raised m) | Inr v \<Rightarrow> Inr v,
      st\<lparr>conn := snd (vset env task s args kwargs (conn st)),
         trace := trace st @ [SetCall task s args kwargs]\<rparr>)"
  by (simp add: call_set_def split: prod.splits)

lemma new_calls_same [simp]: "new_calls st st = []"
  by (simp add: new_calls_def)

lemma new_calls_append:
  "trace st' = trace st @ cs \<Longrightarrow> new_calls st st' = cs"
  by (simp add: new_calls_def)

text \<open>The journal after \<open>get_p\<close>.\<close>

lemma get_p_trace:
  "trace (snd (get_p env st param synth_id)) =
     trace st @ (case synth synth_id of None \<Rightarrow> []
       | Some s \<Rightarrow> (case map_of get_tasks param of None \<Rightarrow> [] | Some task \<Rightarrow> [GetCall task s]))"
  by (simp add: get_p_def call_get_eq store_def split: option.splits sum.splits)

lemma get_p_status_cases:
  "status (snd (get_p env st param synth_id)) = status st \<or>
   (\<exists>d v. status st synth_id = Some d \<and> fst (get_p env st param synth_id) = Inr v \<and> param \<in> fst ` set get_tasks \<and>
      status (snd (get_p env st param synth_id)) = (status st)(synth_id \<mapsto> d(param \<mapsto> v)))"
  by (auto simp add: get_p_def call_get_eq store_def  split: option.splits sum.splits dest!: map_of_SomeD intro: rev_image_eqI)

text \<open>
  Claim C3. On channel 1 or 2, for a key of \<open>__get_tasks__\<close> whose vendor get method returns
  \<open>v\<close>, and a cache that has the channel, \<open>get_p\<close> makes that one vendor call, returns \<open>v\<close>
  and stores \<open>v\<close> in \<open>status[synth_id][param]\<close>; nothing else of the state changes but the
  connection, which is as the vendor call left it.
\<close>

theorem get_p_returns_and_caches:
  assumes "synth synth_id = Some s"
    and "map_of get_tasks param = Some task"
    and "vget env task s (conn st) = (Inr v, h)"
    and "status st synth_id = Some d"
  shows "get_p env st param synth_id =
    (Inr v, st\<lparr>conn := h, status := (status st)(synth_id \<mapsto> d(param \<mapsto> v)),
               trace := trace st @ [GetCall task s]\<rparr>)"
  using assms by (simp add: get_p_def call_get_eq store_def)

text \<open>
  Claim C5. \<open>get_p(param, synth_id)\<close> leaves the channel keys of the cache as they were, and
  every entry \<open>status[i][p]\<close> other than \<open>status[synth_id][param]\<close> as it was, whatever
  the arguments and whatever the vendor does.
\<close>

theorem get_p_frame:
  "dom (status (snd (get_p env st param synth_id))) = dom (status st) \<and>
   (\<forall>i p. (i, p) \<noteq> (synth_id, param) \<longrightarrow>
      cached (snd (get_p env st param synth_id)) i p = cached st i p)"
  using get_p_status_cases [of env st param synth_id]
  by (auto simp: cached_def split: option.splits if_splits)

lemma set_tasks_get_tasks:
  "map_of set_tasks param = Some task \<Longrightarrow> \<exists>gtask. map_of get_tasks param = Some gtask"
  by (auto simp: set_tasks_def get_tasks_def split: if_splits)

lemma set_p_shape:
  "(set_p env st param synth_id args kwargs = (Inl (KeyError (VInt synth_id)), st) \<and> synth synth_id = None)
   \<or> (\<exists>s e. synth synth_id = Some s \<and> set_p_args env param args = Inl e \<and>
        set_p env st param synth_id args kwargs = (Inl e, st))
   \<or> (\<exists>s args'. synth synth_id = Some s \<and> set_p_args env param args = Inr args' \<and>
        map_of set_tasks param = None \<and>
        set_p env st param synth_id args kwargs = (Inl (Exception param ''set failed''), st))
   \<or> (\<exists>s args' task st1. synth synth_id = Some s \<and> set_p_args env param args = Inr args' \<and>
        map_of set_tasks param = Some task \<and>
        st1 = snd (call_set env task s args' kwargs st) \<and>
        (((\<exists>m. fst (vset env task s args' kwargs (conn st)) = Inl (Error m)) \<and>
          set_p env st param synth_id args kwargs = (Inl (Exception param ''set failed''), st1))
         \<or> (\<exists>m. fst (vset env task s args' kwargs (conn st)) = Inl (BaseError m) \<and>
              set_p env st param synth_id args kwargs = (Inl (Raised (BaseError m)), st1))
         \<or> (\<exists>success. fst (vset env task s args' kwargs (conn st)) = Inr success \<and> \<not> truthy success \<and>
              set_p env st param synth_id args kwargs =
                (Inl (ObservatoryError param ''setting failed''), st1))
         \<or> (\<exists>success gtask. fst (vset env task s args' kwargs (conn st)) = Inr success \<and>
              truthy success \<and> map_of get_tasks param = Some gtask \<and>
              ((\<exists>x. fst (vget env gtask s (conn st1)) = Inl x \<and>
                 set_p env st param synth_id args kwargs =
                   (Inl (Raised x), snd (call_get env gtask s st1)))
               \<or> (\<exists>v. fst (vget env gtask s (conn st1)) = Inr v \<and>
                 set_p env st param synth_id args kwargs =
                   store (snd (call_get env gtask s st1)) synth_id param v)))))"
proof (cases "synth synth_id")
  case None
  then show ?thesis by (simp add: set_p_def)
next
  case (Some s)
  note s = this
  show ?thesis
  proof (cases "set_p_args env param args")
    case (Inl e)
    with s show ?thesis by (simp add: set_p_def)
  next
    case (Inr args')
    note a = this
    show ?thesis
    proof (cases "map_of set_tasks param")
      case None
      with s a show ?thesis by (simp add: set_p_def)
    next
      case (Some task)
      note t = this
      from set_tasks_get_tasks [OF t] obtain gtask where g: "map_of get_tasks param = Some gtask" ..
      show ?thesis
      proof (cases "fst (vset env task s args' kwargs (conn st))")
        case (Inl x)
        with s a t show ?thesis by (cases x) (simp_all add: set_p_def call_set_eq)
      next
        case (Inr success)
        note r = this
        show ?thesis
        proof (cases "truthy success")
          case False
          with s a t r show ?thesis by (simp add: set_p_def call_set_eq)
        next
          case True
          show ?thesis
          proof (cases "fst (vget env gtask s (snd (vset env task s args' kwargs (conn st))))")
            case (Inl m)
            with s a t r g True show ?thesis by (simp add: set_p_def call_set_eq call_get_eq)
          next
            case (Inr v)
            with s a t r g True show ?thesis by (simp add: set_p_def call_set_eq call_get_eq)
          qed
        qed
      qed
    qed
  qed
qed

lemma store_status_cases:
  "store st synth_id param v = (Inl (KeyError (VInt synth_id)), st) \<and> status st synth_id = None
   \<or> (\<exists>d. status st synth_id = Some d \<and>
        store st synth_id param v = (Inr v, st\<lparr>status := (status st)(synth_id \<mapsto> d(param \<mapsto> v))\<rparr>))"
  by (simp add: store_def split: option.splits)

lemma store_not_Exception [simp]:
  "fst (store st synth_id param v) \<noteq> Inl (Exception a b)"
  "fst (store st synth_id param v) \<noteq> Inl (ObservatoryError a b)"
  by (simp_all add: store_def split: option.splits)

lemma store_trace [simp]: "trace (snd (store st synth_id param v)) = trace st"
  by (simp add: store_def split: option.splits)

lemma store_conn [simp]: "conn (snd (store st synth_id param v)) = conn st"
  by (simp add: store_def split: option.splits)

lemma store_fail_status:
  "isl (fst (store st synth_id param v)) \<Longrightarrow> status (snd (store st synth_id param v)) = status st"
  by (simp add: store_def split: option.splits)

lemma call_get_status [simp]: "status (snd (call_get env task s st)) = status st"
  by (simp add: call_get_eq)

lemma call_set_status [simp]: "status (snd (call_set env task s args kwargs st)) = status st"
  by (simp add: call_set_eq)

lemma call_get_trace [simp]:
  "trace (snd (call_get env task s st)) = trace st @ [GetCall task s]"
  by (simp add: call_get_eq)

lemma call_set_trace [simp]:
  "trace (snd (call_set env task s args kwargs st)) = trace st @ [SetCall task s args kwargs]"
  by (simp add: call_set_eq)

lemma set_p_fail_status:
  "isl (fst (set_p env st param synth_id args kwargs)) \<Longrightarrow>
   status (snd (set_p env st param synth_id args kwargs)) = status st"
  using set_p_shape [of env st param synth_id args kwargs]
  by (elim disjE exE conjE) (simp_all add: store_fail_status)

lemma set_p_new_calls:
  "new_calls st (snd (set_p env st param synth_id args kwargs)) = [] \<or>
   (\<exists>s args' task. synth synth_id = Some s \<and> set_p_args env param args = Inr args' \<and>
      map_of set_tasks param = Some task \<and>
      (new_calls st (snd (set_p env st param synth_id args kwargs)) = [SetCall task s args' kwargs]
       \<or> (\<exists>gtask. map_of get_tasks param = Some gtask \<and>
            new_calls st (snd (set_p env st param synth_id args kwargs)) =
              [SetCall task s args' kwargs, GetCall gtask s])))"
  using set_p_shape [of env st param synth_id args kwargs]
  by (elim disjE exE conjE) (simp_all add: new_calls_def)

lemma set_p_first_call:
  assumes "synth synth_id = Some s" and "set_p_args env param args = Inr args'"
    and "map_of set_tasks param = Some task"
  shows "\<exists>rest. new_calls st (snd (set_p env st param synth_id args kwargs)) =
           SetCall task s args' kwargs # rest"
  using set_p_shape [of env st param synth_id args kwargs] assms
  by (elim disjE exE conjE) (simp_all add: new_calls_def)

lemma set_p_vendor:
  assumes "synth synth_id = Some s"
    and "set_p_args env param args = Inr args'"
    and "map_of set_tasks param = Some task"
    and "map_of get_tasks param = Some gtask"
    and "vset env task s args' kwargs (conn st) = (r, h)"
  shows "set_p env st param synth_id args kwargs =
    (case r of
       Inl x \<Rightarrow>
         (Inl (case x of Error m \<Rightarrow> Exception param ''set failed'' | BaseError m \<Rightarrow> Raised x),
          st\<lparr>conn := h, trace := trace st @ [SetCall task s args' kwargs]\<rparr>)
     | Inr success \<Rightarrow>
         if truthy success
         then (case call_get env gtask s
                      (st\<lparr>conn := h, trace := trace st @ [SetCall task s args' kwargs]\<rparr>) of
                 (Inl e, st2) \<Rightarrow> (Inl e, st2)
               | (Inr v, st2) \<Rightarrow> store st2 synth_id param v)
         else (Inl (ObservatoryError param ''setting failed''),
               st\<lparr>conn := h, trace := trace st @ [SetCall task s args' kwargs]\<rparr>))"
proof (cases r)
  case (Inl x)
  with assms show ?thesis by (cases x) (simp_all add: set_p_def call_set_eq)
next
  case (Inr success)
  with assms show ?thesis by (simp add: set_p_def call_set_eq)
qed

text \<open>
  Claim C6. For a parameter name other than \<open>"rf_level"\<close>, every vendor set call that
  \<open>set_p\<close> makes carries the positional and keyword arguments exactly as the caller gave
  them; on channel 1 or 2 and for a key of \<open>__set_tasks__\<close> that call is made, first; and the
  vendor set method is applied to the channel and to exactly these arguments on the
  connection as it stands, \<open>set_p\<close> ending as the answer of that call decides.
\<close>

theorem set_p_forwards_args:
  assumes "param \<noteq> ''rf_level''"
  shows "(\<forall>c \<in> set (new_calls st (snd (set_p env st param synth_id args kwargs))).
            \<forall>task s a k. c = SetCall task s a k \<longrightarrow> a = args \<and> k = kwargs) \<and>
         (synth synth_id = Some s \<and> map_of set_tasks param = Some task \<longrightarrow>
            (\<exists>rest. new_calls st (snd (set_p env st param synth_id args kwargs)) =
               SetCall task s args kwargs # rest)) \<and>
         (synth synth_id = Some s \<and> map_of set_tasks param = Some task \<and>
          map_of get_tasks param = Some gtask \<and>
          vset env task s args kwargs (conn st) = (r, h) \<longrightarrow>
            set_p env st param synth_id args kwargs =
              (case r of
                 Inl x \<Rightarrow>
                   (Inl (case x of Error m \<Rightarrow> Exception param ''set failed''
                               | BaseError m \<Rightarrow> Raised x),
                    st\<lparr>conn := h, trace := trace st @ [SetCall task s args kwargs]\<rparr>)
               | Inr success \<Rightarrow>
                   if truthy success
                   then (case call_get env gtask s
                                (st\<lparr>conn := h, trace := trace st @ [SetCall task s args kwargs]\<rparr>) of
                           (Inl e, st2) \<Rightarrow> (Inl e, st2)
                         | (Inr v, st2) \<Rightarrow> store st2 synth_id param v)
                   else (Inl (ObservatoryError param ''setting failed''),
                         st\<lparr>conn := h, trace := trace st @ [SetCall task s args kwargs]\<rparr>)))"
proof (intro conjI impI)
  from assms have a: "set_p_args env param args = Inr args"
    by (simp add: set_p_args_def)
  show "\<forall>c \<in> set (new_calls st (snd (set_p env st param synth_id args kwargs))).
            \<forall>task s a k. c = SetCall task s a k \<longrightarrow> a = args \<and> k = kwargs"
    using set_p_new_calls [of st env param synth_id args kwargs] a by auto
  show "\<exists>rest. new_calls st (snd (set_p env st param synth_id args kwargs)) =
               SetCall task s args kwargs # rest"
    if "synth synth_id = Some s \<and> map_of set_tasks param = Some task"
    using set_p_first_call [OF _ a] that by blast
  show "set_p env st param synth_id args kwargs =
              (case r of
                 Inl x \<Rightarrow>
                   (Inl (case x of Error m \<Rightarrow> Exception param ''set failed''
                               | BaseError m \<Rightarrow> Raised x),
                    st\<lparr>conn := h, trace := trace st @ [SetCall task s args kwargs]\<rparr>)
               | Inr success \<Rightarrow>
                   if truthy success
                   then (case call_get env gtask s
                                (st\<lparr>conn := h, trace := trace st @ [SetCall task s args kwargs]\<rparr>) of
                           (Inl e, st2) \<Rightarrow> (Inl e, st2)
                         | (Inr v, st2) \<Rightarrow> store st2 synth_id param v)
                   else (Inl (ObservatoryError param ''setting failed''),
                         st\<lparr>conn := h, trace := trace st @ [SetCall task s args kwargs]\<rparr>))"
    if h: "synth synth_id = Some s \<and> map_of set_tasks param = Some task \<and>
          map_of get_tasks param = Some gtask \<and>
          vset env task s args kwargs (conn st) = (r, h)"
    by (rule set_p_vendor [OF h [THEN conjunct1] a h [THEN conjunct2, THEN conjunct1]
          h [THEN conjunct2, THEN conjunct2, THEN conjunct1]
          h [THEN conjunct2, THEN conjunct2, THEN conjunct2]])
qed

lemma set_p_success:
  assumes "synth synth_id = Some s"
    and "set_p_args env param args = Inr args'"
    and "map_of set_tasks param = Some task"
    and "vset env task s args' kwargs (conn st) = (Inr success, h1)"
    and "truthy success"
    and "map_of get_tasks param = Some gtask"
    and "vget env gtask s h1 = (Inr v, h2)"
    and "status st synth_id = Some d"
  shows "set_p env st param synth_id args kwargs =
    (Inr v, st\<lparr>conn := h2, status := (status st)(synth_id \<mapsto> d(param \<mapsto> v)),
               trace := trace st @ [SetCall task s args' kwargs, GetCall gtask s]\<rparr>)"
  using assms by (simp add: set_p_def call_set_eq call_get_eq store_def)

text \<open>
  Claim C7. When the vendor set method returns a truthy value, \<open>set_p\<close> calls the vendor
  get method of the same parameter on the same channel, stores the value read in
  \<open>status[synth_id][param]\<close> and returns it, not the value the caller requested.
\<close>

theorem set_p_success_rereads:
  assumes "synth synth_id = Some s"
    and "set_p_args env param args = Inr args'"
    and "map_of set_tasks param = Some task"
    and "vset env task s args' kwargs (conn st) = (Inr success, h1)"
    and "truthy success"
    and "map_of get_tasks param = Some gtask"
    and "vget env gtask s h1 = (Inr v, h2)"
    and "status st synth_id = Some d"
  shows "set_p env st param synth_id args kwargs =
    (Inr v, st\<lparr>conn := h2, status := (status st)(synth_id \<mapsto> d(param \<mapsto> v)),
               trace := trace st @ [SetCall task s args' kwargs, GetCall gtask s]\<rparr>)"
  using assms by (rule set_p_success)

text \<open>
  Claim C8, as amended. Whenever \<open>set_p\<close> ends with an exception, whichever it is, the cache
  is unchanged. On channel 1 or 2, once the arguments are prepared (for \<open>"rf_level"\<close>, the
  correction itself did not raise), \<open>set_p\<close> raises \<open>Exception(param, "set failed")\<close>
  exactly when the lookup of the set task fails or the vendor set method raises an
  instance of \<open>Exception\<close>, and \<open>ObservatoryError(param, "setting failed")\<close> exactly when the
  vendor set method returns a falsy value. What the vendor set method raises that is not
  an instance of \<open>Exception\<close> leaves \<open>set_p\<close> as it is, and so does what the re-reading get
  method raises after a truthy answer. Before the \<^verbatim>\<open>try\<close>, a \<open>synth_id\<close> other than 1 and 2
  ends \<open>set_p\<close> with \<open>KeyError\<close> and the state unchanged, and \<open>"rf_level"\<close> with no
  positional argument ends it with \<open>IndexError\<close> on channel 1 or 2.
\<close>

theorem set_p_failures:
  "(isl (fst (set_p env st param synth_id args kwargs)) \<longrightarrow>
      status (snd (set_p env st param synth_id args kwargs)) = status st) \<and>
   (synth synth_id = Some s \<and> set_p_args env param args = Inr args' \<longrightarrow>
      (fst (set_p env st param synth_id args kwargs) = Inl (Exception param ''set failed'') \<longleftrightarrow>
         (case map_of set_tasks param of
            None \<Rightarrow> True
          | Some task \<Rightarrow> (\<exists>m. fst (vset env task s args' kwargs (conn st)) = Inl (Error m)))) \<and>
      (fst (set_p env st param synth_id args kwargs) =
           Inl (ObservatoryError param ''setting failed'') \<longleftrightarrow>
         (case map_of set_tasks param of
            None \<Rightarrow> False
          | Some task \<Rightarrow>
              (case fst (vset env task s args' kwargs (conn st)) of
                 Inl x \<Rightarrow> False
               | Inr success \<Rightarrow> \<not> truthy success)))) \<and>
   (synth synth_id = Some s \<and> set_p_args env param args = Inr args' \<and>
    map_of set_tasks param = Some task \<and>
    vset env task s args' kwargs (conn st) = (Inl (BaseError m), h) \<longrightarrow>
      set_p env st param synth_id args kwargs =
        (Inl (Raised (BaseError m)),
         st\<lparr>conn := h, trace := trace st @ [SetCall task s args' kwargs]\<rparr>)) \<and>
   (synth synth_id = Some s \<and> set_p_args env param args = Inr args' \<and>
    map_of set_tasks param = Some task \<and>
    vset env task s args' kwargs (conn st) = (Inr success, h) \<and> truthy success \<and>
    map_of get_tasks param = Some gtask \<and> vget env gtask s h = (Inl x, h') \<longrightarrow>
      set_p env st param synth_id args kwargs =
        (Inl (Raised x),
         st\<lparr>conn := h', trace := trace st @ [SetCall task s args' kwargs, GetCall gtask s]\<rparr>)) \<and>
   (synth synth_id = None \<longrightarrow>
      set_p env st param synth_id args kwargs = (Inl (KeyError (VInt synth_id)), st)) \<and>
   (synth synth_id = Some s \<longrightarrow>
      set_p env st ''rf_level'' synth_id [] kwargs = (Inl IndexError, st))"
proof (intro conjI impI)
  show "status (snd (set_p env st param synth_id args kwargs)) = status st"
    if "isl (fst (set_p env st param synth_id args kwargs))"
    using that by (rule set_p_fail_status)
  show "fst (set_p env st param synth_id args kwargs) = Inl (Exception param ''set failed'') \<longleftrightarrow>
         (case map_of set_tasks param of
            None \<Rightarrow> True
          | Some task \<Rightarrow> (\<exists>m. fst (vset env task s args' kwargs (conn st)) = Inl (Error m)))"
    if "synth synth_id = Some s \<and> set_p_args env param args = Inr args'"
    using set_p_shape [of env st param synth_id args kwargs] that
    by (elim disjE exE conjE) (auto split: sum.splits)
  show "fst (set_p env st param synth_id args kwargs) =
           Inl (ObservatoryError param ''setting failed'') \<longleftrightarrow>
         (case map_of set_tasks param of
            None \<Rightarrow> False
          | Some task \<Rightarrow>
              (case fst (vset env task s args' kwargs (conn st)) of
                 Inl x \<Rightarrow> False
               | Inr success \<Rightarrow> \<not> truthy success))"
    if "synth synth_id = Some s \<and> set_p_args env param args = Inr args'"
    using set_p_shape [of env st param synth_id args kwargs] that
    by (elim disjE exE conjE) (auto split: sum.splits)
  show "set_p env st param synth_id args kwargs =
        (Inl (Raised (BaseError m)),
         st\<lparr>conn := h, trace := trace st @ [SetCall task s args' kwargs]\<rparr>)"
    if "synth synth_id = Some s \<and> set_p_args env param args = Inr args' \<and>
        map_of set_tasks param = Some task \<and>
        vset env task s args' kwargs (conn st) = (Inl (BaseError m), h)"
    using that by (simp add: set_p_def call_set_eq)
  show "set_p env st param synth_id args kwargs =
        (Inl (Raised x),
         st\<lparr>conn := h', trace := trace st @ [SetCall task s args' kwargs, GetCall gtask s]\<rparr>)"
    if "synth synth_id = Some s \<and> set_p_args env param args = Inr args' \<and>
        map_of set_tasks param = Some task \<and>
        vset env task s args' kwargs (conn st) = (Inr success, h) \<and> truthy success \<and>
        map_of get_tasks param = Some gtask \<and> vget env gtask s h = (Inl x, h')"
    using that by (simp add: set_p_def call_set_eq call_get_eq)
  show "set_p env st param synth_id args kwargs = (Inl (KeyError (VInt synth_id)), st)"
    if "synth synth_id = None"
    using that by (simp add: set_p_def)
  show "set_p env st ''rf_level'' synth_id [] kwargs = (Inl IndexError, st)"
    if "synth synth_id = Some s"
    using that by (simp add: set_p_def set_p_args_def rf_level_args_def)
qed

lemma nearest_index_spec_less: "xs \<noteq> [] \<Longrightarrow> nearest_index_spec xs v < length xs"
  by (induction xs v rule: nearest_index_spec.induct) (auto simp: Let_def)

lemma nearest_index_spec_least:
  "k \<in> set xs \<Longrightarrow> \<bar>xs ! nearest_index_spec xs v - v\<bar> \<le> \<bar>k - v\<bar>"
proof (induction xs v arbitrary: k rule: nearest_index_spec.induct)
  case (1 v)
  then show ?case by simp
next
  case (2 x v)
  then show ?case by simp
next
  case (3 x y ys v)
  let ?j = "nearest_index_spec (y # ys) v"
  show ?case
  proof (cases "k = x")
    case True
    then show ?thesis by (simp add: Let_def)
  next
    case False
    with "3.prems" have "k \<in> set (y # ys)" by simp
    from "3.IH" [OF this] have "\<bar>(y # ys) ! ?j - v\<bar> \<le> \<bar>k - v\<bar>" .
    then show ?thesis by (simp add: Let_def)
  qed
qed

lemma py_index_nat: "n < length xs \<Longrightarrow> py_index xs (int n) = Inr (xs ! n)"
  by (simp add: py_index_def)

lemma rf_level_args_nearest:
  assumes "rfl_rev_table_keys env \<noteq> []"
  shows "\<exists>k. k \<in> set (rfl_rev_table_keys env) \<and>
           (\<forall>k' \<in> set (rfl_rev_table_keys env). \<bar>k - x\<bar> \<le> \<bar>k' - x\<bar>) \<and>
           rf_level_args env (VInt x # extra) = Inr [VInt k]"
proof -
  let ?pkeys = "sort (rfl_rev_table_keys env)"
  let ?n = "nearest_index_spec ?pkeys x"
  from assms have ne: "?pkeys \<noteq> []"
    by (metis length_sort length_0_conv)
  then have lt: "?n < length ?pkeys" by (rule nearest_index_spec_less)
  then have "?pkeys ! ?n \<in> set ?pkeys" by (rule nth_mem)
  then have mem: "?pkeys ! ?n \<in> set (rfl_rev_table_keys env)" by simp
  have least: "\<forall>k' \<in> set (rfl_rev_table_keys env). \<bar>?pkeys ! ?n - x\<bar> \<le> \<bar>k' - x\<bar>"
  proof
    fix k' assume "k' \<in> set (rfl_rev_table_keys env)"
    then have "k' \<in> set ?pkeys" by simp
    then show "\<bar>?pkeys ! ?n - x\<bar> \<le> \<bar>k' - x\<bar>" by (rule nearest_index_spec_least)
  qed
  from ne have "nearest_index ?pkeys (VInt x) = Inr (int ?n)"
    by (simp add: nearest_index_def)
  then have "rf_level_args env (VInt x # extra) = Inr [VInt (?pkeys ! ?n)]"
    using py_index_nat [OF lt] by (simp add: rf_level_args_def Let_def)
  with mem least show ?thesis by blast
qed

text \<open>
  Claim C1. For \<open>set_p("rf_level", synth_id, v)\<close> on channel 1 or 2, with an integer
  level \<open>v\<close> and a table that has a key, there is a key \<open>k\<close> of the table at least as near
  to \<open>v\<close> as every other key such that the arguments are replaced by the single \<open>k\<close>, the
  vendor method \<open>set_rf_level\<close> is applied to the channel, to \<open>k\<close> alone and to the keyword
  arguments on the connection as it stands, and \<open>set_p\<close> ends as the answer of that call
  decides. The level is replaced before the vendor is called, whether or not it was
  valid, and further positional arguments are dropped. The nearest index is that of
  \<open>nearest_index\<close>, modelled from the spec.
\<close>

theorem set_p_rf_level_nearest:
  assumes "synth synth_id = Some s"
    and "rfl_rev_table_keys env \<noteq> []"
  shows "\<exists>k. k \<in> set (rfl_rev_table_keys env) \<and>
           (\<forall>k' \<in> set (rfl_rev_table_keys env). \<bar>k - x\<bar> \<le> \<bar>k' - x\<bar>) \<and>
           set_p_args env ''rf_level'' (VInt x # extra) = Inr [VInt k] \<and>
           (\<exists>rest. new_calls st (snd (set_p env st ''rf_level'' synth_id (VInt x # extra) kwargs)) =
              SetCall set_rf_level s [VInt k] kwargs # rest) \<and>
           set_p env st ''rf_level'' synth_id (VInt x # extra) kwargs =
             (case vset env set_rf_level s [VInt k] kwargs (conn st) of
                (Inl e, h) \<Rightarrow>
                  (Inl (case e of Error m \<Rightarrow> Exception ''rf_level'' ''set failed''
                              | BaseError m \<Rightarrow> Raised e),
                   st\<lparr>conn := h, trace := trace st @ [SetCall set_rf_level s [VInt k] kwargs]\<rparr>)
              | (Inr success, h) \<Rightarrow>
                  if truthy success
                  then (case call_get env get_rf_level s
                               (st\<lparr>conn := h,
                                   trace := trace st @ [SetCall set_rf_level s [VInt k] kwargs]\<rparr>) of
                          (Inl e, st2) \<Rightarrow> (Inl e, st2)
                        | (Inr v, st2) \<Rightarrow> store st2 synth_id ''rf_level'' v)
                  else (Inl (ObservatoryError ''rf_level'' ''setting failed''),
                        st\<lparr>conn := h,
                            trace := trace st @ [SetCall set_rf_level s [VInt k] kwargs]\<rparr>))"
proof -
  from rf_level_args_nearest [OF assms(2)] obtain k where
    k: "k \<in> set (rfl_rev_table_keys env)"
       "\<forall>k' \<in> set (rfl_rev_table_keys env). \<bar>k - x\<bar> \<le> \<bar>k' - x\<bar>"
       "rf_level_args env (VInt x # extra) = Inr [VInt k]"
    by blast
  from k(3) have a: "set_p_args env ''rf_level'' (VInt x # extra) = Inr [VInt k]"
    by (simp add: set_p_args_def)
  have t: "map_of set_tasks ''rf_level'' = Some set_rf_level"
    by (simp add: set_tasks_def)
  have g: "map_of get_tasks ''rf_level'' = Some get_rf_level"
    by (simp add: get_tasks_def)
  obtain r h where v: "vset env set_rf_level s [VInt k] kwargs (conn st) = (r, h)"
    by (cases "vset env set_rf_level s [VInt k] kwargs (conn st)")
  note c = set_p_first_call [OF assms(1) a t, of st kwargs]
  have e: "set_p env st ''rf_level'' synth_id (VInt x # extra) kwargs =
             (case vset env set_rf_level s [VInt k] kwargs (conn st) of
                (Inl e, h) \<Rightarrow>
                  (Inl (case e of Error m \<Rightarrow> Exception ''rf_level'' ''set failed''
                              | BaseError m \<Rightarrow> Raised e),
                   st\<lparr>conn := h, trace := trace st @ [SetCall set_rf_level s [VInt k] kwargs]\<rparr>)
              | (Inr success, h) \<Rightarrow>
                  if truthy success
                  then (case call_get env get_rf_level s
                               (st\<lparr>conn := h,
                                   trace := trace st @ [SetCall set_rf_level s [VInt k] kwargs]\<rparr>) of
                          (Inl e, st2) \<Rightarrow> (Inl e, st2)
                        | (Inr v, st2) \<Rightarrow> store st2 synth_id ''rf_level'' v)
                  else (Inl (ObservatoryError ''rf_level'' ''setting failed''),
                        st\<lparr>conn := h,
                            trace := trace st @ [SetCall set_rf_level s [VInt k] kwargs]\<rparr>))"
    unfolding set_p_vendor [OF assms(1) a t g v] v
    by (simp split: sum.splits)
  from k(1,2) a c e show ?thesis by blast
qed

lemma get_p_new_calls:
  "synth synth_id = Some s \<Longrightarrow> map_of get_tasks param = Some task \<Longrightarrow>
   new_calls st (snd (get_p env st param synth_id)) = [GetCall task s]"
  by (simp add: new_calls_def get_p_trace)

text \<open>
  Claim C2, as amended. All six parameter names are keys of \<open>__get_tasks__\<close>, and on the
  channels 1 and 2 \<open>get_p\<close> makes exactly the one call of the vendor get method of the name.
  Five of them (all but \<open>"phase lock"\<close>) are keys of \<open>__set_tasks__\<close>, and \<open>set_p\<close> calls
  the vendor set method of the name first, with the arguments \<open>set_p_args\<close> prepared.
  \<open>"phase lock"\<close> has no set task: \<open>set_p\<close> ends with
  \<open>Exception("phase lock", "set failed")\<close> and the state is unchanged.
\<close>

theorem dispatch_tables:
  "map_of get_tasks ''frequency'' = Some get_frequency \<and>
   map_of get_tasks ''rf_level'' = Some get_rf_level \<and>
   map_of get_tasks ''phase lock'' = Some get_phase_lock \<and>
   map_of get_tasks ''label'' = Some get_label \<and>
   map_of get_tasks ''VCO range'' = Some get_vco_range \<and>
   map_of get_tasks ''options'' = Some get_options \<and>
   map_of set_tasks ''frequency'' = Some set_frequency \<and>
   map_of set_tasks ''rf_level'' = Some set_rf_level \<and>
   map_of set_tasks ''label'' = Some set_label \<and>
   map_of set_tasks ''VCO range'' = Some set_vco_range \<and>
   map_of set_tasks ''options'' = Some set_options \<and>
   map_of set_tasks ''phase lock'' = None \<and>
   (synth synth_id = Some s \<longrightarrow>
      (map_of get_tasks param = Some gtask \<longrightarrow>
         new_calls st (snd (get_p env st param synth_id)) = [GetCall gtask s]) \<and>
      (map_of set_tasks param = Some task \<and> set_p_args env param args = Inr args' \<longrightarrow>
         (\<exists>rest. new_calls st (snd (set_p env st param synth_id args kwargs)) =
            SetCall task s args' kwargs # rest)) \<and>
      set_p env st ''phase lock'' synth_id args kwargs =
        (Inl (Exception ''phase lock'' ''set failed''), st))"
proof -
  have tables:
    "map_of get_tasks ''frequency'' = Some get_frequency"
    "map_of get_tasks ''rf_level'' = Some get_rf_level"
    "map_of get_tasks ''phase lock'' = Some get_phase_lock"
    "map_of get_tasks ''label'' = Some get_label"
    "map_of get_tasks ''VCO range'' = Some get_vco_range"
    "map_of get_tasks ''options'' = Some get_options"
    "map_of set_tasks ''frequency'' = Some set_frequency"
    "map_of set_tasks ''rf_level'' = Some set_rf_level"
    "map_of set_tasks ''label'' = Some set_label"
    "map_of set_tasks ''VCO range'' = Some set_vco_range"
    "map_of set_tasks ''options'' = Some set_options"
    "map_of set_tasks ''phase lock'' = None"
    by (simp_all add: get_tasks_def set_tasks_def)
  have g: "new_calls st (snd (get_p env st param synth_id)) = [GetCall gtask s]"
    if "synth synth_id = Some s" "map_of get_tasks param = Some gtask"
    using that by (rule get_p_new_calls)
  have t: "\<exists>rest. new_calls st (snd (set_p env st param synth_id args kwargs)) =
            SetCall task s args' kwargs # rest"
    if "synth synth_id = Some s" "map_of set_tasks param = Some task"
      "set_p_args env param args = Inr args'"
    using that(1,3,2) by (rule set_p_first_call)
  have p: "set_p env st ''phase lock'' synth_id args kwargs =
        (Inl (Exception ''phase lock'' ''set failed''), st)"
    if "synth synth_id = Some s"
    using that tables(12) by (simp add: set_p_def set_p_args_def)
  from tables g t p show ?thesis by blast
qed

lemma set_tasks_subset: "fst ` set set_tasks \<subseteq> fst ` set get_tasks"
  by (simp add: set_tasks_def get_tasks_def)

lemma store_status_shape:
  assumes "status st2 = status st" and "map_of get_tasks param = Some gtask"
  shows "status (snd (store st2 synth_id param v)) = status st \<or>
   (\<exists>d v'. status st synth_id = Some d \<and> param \<in> fst ` set get_tasks \<and>
      status (snd (store st2 synth_id param v)) = (status st)(synth_id \<mapsto> d(param \<mapsto> v')))"
proof (cases "status st synth_id")
  case None
  with assms(1) show ?thesis by (simp add: store_def)
next
  case (Some d)
  from assms(2) have p: "param \<in> fst ` set get_tasks"
    by (auto dest!: map_of_SomeD intro: rev_image_eqI)
  from Some assms(1)
  have "status (snd (store st2 synth_id param v)) = (status st)(synth_id \<mapsto> d(param \<mapsto> v))"
    by (simp add: store_def)
  with Some p show ?thesis by blast
qed

lemma set_p_status_cases:
  "status (snd (set_p env st param synth_id args kwargs)) = status st \<or>
   (\<exists>d v. status st synth_id = Some d \<and> param \<in> fst ` set get_tasks \<and>
      status (snd (set_p env st param synth_id args kwargs)) =
        (status st)(synth_id \<mapsto> d(param \<mapsto> v)))"
proof -
  have stored: ?thesis
    if "status st2 = status st" "map_of get_tasks param = Some gtask"
      "set_p env st param synth_id args kwargs = store st2 synth_id param v" for st2 gtask v
    using store_status_shape [OF that(1,2), of synth_id v] that(3) by simp
  show ?thesis
    using set_p_shape [of env st param synth_id args kwargs]
  proof (elim disjE exE conjE)
    fix s args' task st1 success gtask v
    assume "st1 = snd (call_set env task s args' kwargs st)"
      and "map_of get_tasks param = Some gtask"
      and "set_p env st param synth_id args kwargs =
             store (snd (call_get env gtask s st1)) synth_id param v"
    then show ?thesis
      by (intro stored [of "snd (call_get env gtask s st1)" gtask v]) simp_all
  qed simp_all
qed

lemma status_full_mono:
  assumes "status_full st" and "\<And>i p. cached st i p \<noteq> None \<Longrightarrow> cached st' i p \<noteq> None"
  shows "status_full st'"
  unfolding status_full_def
proof (intro ballI conjI)
  fix p assume "p \<in> fst ` set get_tasks"
  with assms(1) have c: "cached st 1 p \<noteq> None" "cached st 2 p \<noteq> None"
    unfolding status_full_def by blast+
  from c(1) show "cached st' 1 p \<noteq> None" by (rule assms(2))
  from c(2) show "cached st' 2 p \<noteq> None" by (rule assms(2))
qed

lemma status_inv_update:
  assumes "status_inv st" and "status st i = Some d" and "param \<in> fst ` set get_tasks"
    and "status st' = (status st)(i \<mapsto> d(param \<mapsto> v))"
  shows "status_inv st'"
proof -
  from assms(1,2) have i: "i \<in> {1, 2}" and d: "dom d \<subseteq> fst ` set get_tasks"
    unfolding status_inv_def by blast+
  from i assms(1,4) have "dom (status st') = {1, 2}"
    unfolding status_inv_def by auto
  moreover have "dom d' \<subseteq> fst ` set get_tasks" if "status st' j = Some d'" for j d'
  proof (cases "j = i")
    case True
    with that assms(4) have "d' = d(param \<mapsto> v)" by simp
    with d assms(3) show ?thesis by auto
  next
    case False
    with that assms(4) have "status st j = Some d'" by simp
    with assms(1) show ?thesis unfolding status_inv_def by blast
  qed
  ultimately show ?thesis unfolding status_inv_def by blast
qed

lemma get_p_inv: "status_inv st \<Longrightarrow> status_inv (snd (get_p env st param synth_id))"
  using get_p_status_cases [of env st param synth_id]
proof (elim disjE exE conjE)
  assume "status_inv st" and "status (snd (get_p env st param synth_id)) = status st"
  then show ?thesis by (simp add: status_inv_def)
next
  fix d v
  assume "status_inv st" and "status st synth_id = Some d" and "param \<in> fst ` set get_tasks"
    and "status (snd (get_p env st param synth_id)) = (status st)(synth_id \<mapsto> d(param \<mapsto> v))"
  then show ?thesis by (rule status_inv_update)
qed

lemma set_p_inv:
  "status_inv st \<Longrightarrow> status_inv (snd (set_p env st param synth_id args kwargs))"
  using set_p_status_cases [of env st param synth_id args kwargs]
proof (elim disjE exE conjE)
  assume "status_inv st"
    and "status (snd (set_p env st param synth_id args kwargs)) = status st"
  then show ?thesis by (simp add: status_inv_def)
next
  fix d v
  assume "status_inv st" and "status st synth_id = Some d" and "param \<in> fst ` set get_tasks"
    and "status (snd (set_p env st param synth_id args kwargs)) =
           (status st)(synth_id \<mapsto> d(param \<mapsto> v))"
  then show ?thesis by (rule status_inv_update)
qed

lemma update_loop_inv:
  "status_inv st \<Longrightarrow> status_inv (snd (update_loop env st synth_id params))"
proof (induction params arbitrary: st)
  case Nil
  then show ?case by simp
next
  case (Cons param params)
  from Cons.prems have "status_inv (snd (get_p env st param synth_id))" by (rule get_p_inv)
  from Cons.IH [OF this] this show ?case
    by (auto split: prod.splits sum.splits)
qed

lemma update_synth_status_snd:
  "snd (update_synth_status env st synth_id) = snd (update_loop env st synth_id (keys_order env))"
  by (simp add: update_synth_status_def split: prod.splits sum.splits option.splits)

lemma update_synth_status_inv:
  "status_inv st \<Longrightarrow> status_inv (snd (update_synth_status env st synth_id))"
  by (simp add: update_synth_status_snd update_loop_inv)

lemma init_loop_inv: "status_inv st \<Longrightarrow> status_inv (snd (init_loop env st ids))"
proof (induction ids arbitrary: st)
  case Nil
  then show ?case by simp
next
  case (Cons i ids)
  from Cons.prems have "status_inv (snd (update_synth_status env st i))"
    by (rule update_synth_status_inv)
  from Cons.IH [OF this] this show ?case
    by (auto split: prod.splits sum.splits)
qed

lemma init_status_inv:
  "status_inv \<lparr>conn = h, status = [1 \<mapsto> Map.empty, 2 \<mapsto> Map.empty], trace = []\<rparr>"
  by (auto simp: status_inv_def split: if_splits)

lemma Valon5007_init_inv: "status_inv (snd (Valon5007_init env h))"
  unfolding Valon5007_init_def by (rule init_loop_inv [OF init_status_inv])

text \<open>Entries are never removed, and a successful read leaves its entry.\<close>

lemma get_p_keeps:
  "cached st i p \<noteq> None \<Longrightarrow> cached (snd (get_p env st param synth_id)) i p \<noteq> None"
  using get_p_status_cases [of env st param synth_id]
  by (auto simp: cached_def split: option.splits if_splits)

lemma get_p_success_cached:
  "fst (get_p env st param synth_id) = Inr v \<Longrightarrow>
   cached (snd (get_p env st param synth_id)) synth_id param = Some v"
  by (auto simp: get_p_def call_get_eq store_def cached_def split: option.splits sum.splits)

lemma update_loop_keeps:
  "cached st i p \<noteq> None \<Longrightarrow> cached (snd (update_loop env st synth_id params)) i p \<noteq> None"
proof (induction params arbitrary: st)
  case Nil
  then show ?case by simp
next
  case (Cons param params)
  from Cons.prems have k: "cached (snd (get_p env st param synth_id)) i p \<noteq> None"
    by (rule get_p_keeps)
  from Cons.IH [OF k] k show ?case
    by (auto split: prod.splits sum.splits)
qed

lemma update_loop_populates:
  "fst (update_loop env st synth_id params) = Inr u \<Longrightarrow> p \<in> set params \<Longrightarrow>
   cached (snd (update_loop env st synth_id params)) synth_id p \<noteq> None"
proof (induction params arbitrary: st)
  case Nil
  then show ?case by simp
next
  case (Cons param params)
  obtain r st1 where g: "get_p env st param synth_id = (r, st1)" by (cases "get_p env st param synth_id")
  with Cons.prems(1) obtain v where r: "r = Inr v" by (cases r) auto
  from g r Cons.prems(1) have rest: "fst (update_loop env st1 synth_id params) = Inr u" by simp
  show ?case
  proof (cases "p = param")
    case True
    from g r get_p_success_cached [of env st param synth_id v]
    have "cached st1 synth_id p \<noteq> None" using True by simp
    from update_loop_keeps [OF this] g r show ?thesis by simp
  next
    case False
    with Cons.prems(2) have "p \<in> set params" by simp
    from Cons.IH [OF rest this] g r show ?thesis by simp
  qed
qed

lemma update_synth_status_fst:
  "fst (update_synth_status env st synth_id) = Inr d \<Longrightarrow>
   fst (update_loop env st synth_id (keys_order env)) = Inr ()"
  by (auto simp: update_synth_status_def split: prod.splits sum.splits option.splits)

lemma update_synth_status_keeps:
  "cached st i p \<noteq> None \<Longrightarrow> cached (snd (update_synth_status env st synth_id)) i p \<noteq> None"
  by (simp add: update_synth_status_snd update_loop_keeps)

lemma update_synth_status_populates:
  "fst (update_synth_status env st synth_id) = Inr d \<Longrightarrow> p \<in> set (keys_order env) \<Longrightarrow>
   cached (snd (update_synth_status env st synth_id)) synth_id p \<noteq> None"
  by (simp add: update_synth_status_snd update_loop_populates [OF update_synth_status_fst])

lemma set_p_keeps:
  "cached st i p \<noteq> None \<Longrightarrow> cached (snd (set_p env st param synth_id args kwargs)) i p \<noteq> None"
  using set_p_status_cases [of env st param synth_id args kwargs]
  by (auto simp: cached_def split: option.splits if_splits)

lemma Valon5007_init_full:
  assumes "set (keys_order env) = fst ` set get_tasks"
    and "fst (Valon5007_init env h) = Inr ()"
  shows "status_full (snd (Valon5007_init env h))"
proof -
  define st0 :: "'a valon5007"
    where "st0 = \<lparr>conn = h, status = [1 \<mapsto> Map.empty, 2 \<mapsto> Map.empty], trace = []\<rparr>"
  obtain r1 st1 where u1: "update_synth_status env st0 1 = (r1, st1)"
    by (cases "update_synth_status env st0 1")
  obtain r2 st2 where u2: "update_synth_status env st1 2 = (r2, st2)"
    by (cases "update_synth_status env st1 2")
  have init: "Valon5007_init env h =
      (case r1 of Inl e \<Rightarrow> (Inl e, st1)
       | Inr d \<Rightarrow> (case r2 of Inl e \<Rightarrow> (Inl e, st2) | Inr d \<Rightarrow> (Inr (), st2)))"
    unfolding Valon5007_init_def st0_def [symmetric]
    by (simp add: u1 u2 split: sum.splits)
  from assms(2) init obtain d1 where r1: "r1 = Inr d1"
    by (cases r1) simp_all
  from assms(2) init r1 obtain d2 where r2: "r2 = Inr d2"
    by (cases r2) simp_all
  from init r1 r2 have st: "snd (Valon5007_init env h) = st2"
    by simp
  have "cached st2 1 p \<noteq> None \<and> cached st2 2 p \<noteq> None" if "p \<in> set (keys_order env)" for p
  proof -
    from update_synth_status_populates [of env st0 1 d1 p] u1 r1 that
    have "cached st1 1 p \<noteq> None" by simp
    from update_synth_status_keeps [OF this, of env 2] u2
    have a: "cached st2 1 p \<noteq> None" by simp
    from update_synth_status_populates [of env st1 2 d2 p] u2 r2 that
    have "cached st2 2 p \<noteq> None" by simp
    with a show ?thesis by simp
  qed
  with assms(1) st show ?thesis by (simp add: status_full_def)
qed

text \<open>
  Claim C9. \<open>status_inv\<close> (the cache has exactly the channel keys 1 and 2, and every
  parameter key under them is a key of \<open>__get_tasks__\<close>) is preserved by \<open>get_p\<close>, \<open>set_p\<close>
  and \<open>update_synth_status\<close> and holds for the state \<open>__init__\<close> leaves. When Python
  enumerates all keys of \<open>__get_tasks__\<close> and \<open>__init__\<close> completes, both channels have an
  entry for every key (\<open>status_full\<close>), and the three operations keep that too.
\<close>

theorem status_invariant:
  "(status_inv st \<longrightarrow>
      status_inv (snd (get_p env st param synth_id)) \<and>
      status_inv (snd (set_p env st param synth_id args kwargs)) \<and>
      status_inv (snd (update_synth_status env st synth_id))) \<and>
   (status_full st \<longrightarrow>
      status_full (snd (get_p env st param synth_id)) \<and>
      status_full (snd (set_p env st param synth_id args kwargs)) \<and>
      status_full (snd (update_synth_status env st synth_id))) \<and>
   status_inv (snd (Valon5007_init env h)) \<and>
   (set (keys_order env) = fst ` set get_tasks \<and> fst (Valon5007_init env h) = Inr () \<longrightarrow>
      status_full (snd (Valon5007_init env h)))"
proof (intro conjI impI)
  assume "status_inv st"
  then show "status_inv (snd (get_p env st param synth_id))" by (rule get_p_inv)
  from \<open>status_inv st\<close> show "status_inv (snd (set_p env st param synth_id args kwargs))"
    by (rule set_p_inv)
  from \<open>status_inv st\<close> show "status_inv (snd (update_synth_status env st synth_id))"
    by (rule update_synth_status_inv)
next
  assume "status_full st"
  then show "status_full (snd (get_p env st param synth_id))"
    by (rule status_full_mono) (rule get_p_keeps)
  from \<open>status_full st\<close> show "status_full (snd (set_p env st param synth_id args kwargs))"
    by (rule status_full_mono) (rule set_p_keeps)
  from \<open>status_full st\<close> show "status_full (snd (update_synth_status env st synth_id))"
    by (rule status_full_mono) (rule update_synth_status_keeps)
next
  show "status_inv (snd (Valon5007_init env h))" by (rule Valon5007_init_inv)
next
  assume "set (keys_order env) = fst ` set get_tasks \<and> fst (Valon5007_init env h) = Inr ()"
  then show "status_full (snd (Valon5007_init env h))"
    by (simp add: Valon5007_init_full)
qed

text \<open>
  Claim C4. \<open>Valon1\<close> and \<open>Valon2\<close> delegate to the adapter they hold, with the channel
  numbers 1 and 2: \<open>get_p\<close>, \<open>set_p\<close> and \<open>update_synth_status\<close> of a facade return what
  the adapter's operation returns and leave the adapter in the state that operation leaves;
  the \<open>status\<close> of a facade is the adapter's cache of its channel.
\<close>

theorem facades_delegate:
  "fst (Valon1_get_p env self1 param) = fst (get_p env (hw1 self1) param 1) \<and>
   hw1 (snd (Valon1_get_p env self1 param)) = snd (get_p env (hw1 self1) param 1) \<and>
   Valon1_status (snd (Valon1_get_p env self1 param)) =
     status (snd (get_p env (hw1 self1) param 1)) 1 \<and>
   fst (Valon1_set_p env self1 param args kwargs) = fst (set_p env (hw1 self1) param 1 args kwargs) \<and>
   hw1 (snd (Valon1_set_p env self1 param args kwargs)) =
     snd (set_p env (hw1 self1) param 1 args kwargs) \<and>
   fst (Valon1_update_synth_status env self1) = fst (update_synth_status env (hw1 self1) 1) \<and>
   hw1 (snd (Valon1_update_synth_status env self1)) = snd (update_synth_status env (hw1 self1) 1) \<and>
   fst (Valon2_get_p env self2 param) = fst (get_p env (hw2 self2) param 2) \<and>
   hw2 (snd (Valon2_get_p env self2 param)) = snd (get_p env (hw2 self2) param 2) \<and>
   Valon2_status (snd (Valon2_get_p env self2 param)) =
     status (snd (get_p env (hw2 self2) param 2)) 2 \<and>
   fst (Valon2_set_p env self2 param args kwargs) = fst (set_p env (hw2 self2) param 2 args kwargs) \<and>
   hw2 (snd (Valon2_set_p env self2 param args kwargs)) =
     snd (set_p env (hw2 self2) param 2 args kwargs) \<and>
   fst (Valon2_update_synth_status env self2) = fst (update_synth_status env (hw2 self2) 2) \<and>
   hw2 (snd (Valon2_update_synth_status env self2)) = snd (update_synth_status env (hw2 self2) 2)"
  by (simp add: Valon1_get_p_def Valon1_set_p_def Valon1_update_synth_status_def
      Valon2_get_p_def Valon2_set_p_def Valon2_update_synth_status_def
      Valon1_status_def Valon2_status_def split: prod.splits)

text \<open>
  Claim C10. The dictionary \<open>synth\<close> maps 1 to \<open>SYNTH_A\<close> and 2 to \<open>SYNTH_B\<close> and has no
  other key. For another \<open>synth_id\<close>, \<open>get_p\<close> and \<open>set_p\<close> end with the \<open>KeyError\<close> of
  the lookup and leave the whole state as it was: no vendor call, no cache update, and in
  \<open>set_p\<close> no conversion into \<open>Exception(param, "set failed")\<close>. For the channels 1 and 2
  the vendor calls of \<open>get_p\<close> and \<open>set_p\<close> carry \<open>SYNTH_A\<close> and \<open>SYNTH_B\<close>.
\<close>

theorem synth_lookup_total:
  "synth 1 = Some SYNTH_A \<and> synth 2 = Some SYNTH_B \<and>
   (synth_id \<noteq> 1 \<and> synth_id \<noteq> 2 \<longrightarrow>
      synth synth_id = None \<and>
      get_p env st param synth_id = (Inl (KeyError (VInt synth_id)), st) \<and>
      set_p env st param synth_id args kwargs = (Inl (KeyError (VInt synth_id)), st)) \<and>
   (map_of get_tasks param = Some gtask \<longrightarrow>
      new_calls st (snd (get_p env st param 1)) = [GetCall gtask SYNTH_A] \<and>
      new_calls st (snd (get_p env st param 2)) = [GetCall gtask SYNTH_B]) \<and>
   (map_of set_tasks param = Some task \<and> set_p_args env param args = Inr args' \<longrightarrow>
      (\<exists>rest. new_calls st (snd (set_p env st param 1 args kwargs)) =
         SetCall task SYNTH_A args' kwargs # rest) \<and>
      (\<exists>rest. new_calls st (snd (set_p env st param 2 args kwargs)) =
         SetCall task SYNTH_B args' kwargs # rest))"
proof -
  have a: "synth 1 = Some SYNTH_A" and b: "synth 2 = Some SYNTH_B"
    by (simp_all add: synth_def)
  have none: "synth synth_id = None" if "synth_id \<noteq> 1 \<and> synth_id \<noteq> 2"
    using that by (simp add: synth_def)
  have g: "get_p env st param synth_id = (Inl (KeyError (VInt synth_id)), st)"
    if "synth_id \<noteq> 1 \<and> synth_id \<noteq> 2"
    using none [OF that] by (simp add: get_p_def)
  have t: "set_p env st param synth_id args kwargs = (Inl (KeyError (VInt synth_id)), st)"
    if "synth_id \<noteq> 1 \<and> synth_id \<noteq> 2"
    using none [OF that] by (simp add: set_p_def)
  have gc: "new_calls st (snd (get_p env st param 1)) = [GetCall gtask SYNTH_A] \<and>
      new_calls st (snd (get_p env st param 2)) = [GetCall gtask SYNTH_B]"
    if "map_of get_tasks param = Some gtask"
    by (simp add: get_p_new_calls [OF a that] get_p_new_calls [OF b that])
  have sc: "(\<exists>rest. new_calls st (snd (set_p env st param 1 args kwargs)) =
         SetCall task SYNTH_A args' kwargs # rest) \<and>
      (\<exists>rest. new_calls st (snd (set_p env st param 2 args kwargs)) =
         SetCall task SYNTH_B args' kwargs # rest)"
    if "map_of set_tasks param = Some task \<and> set_p_args env param args = Inr args'"
    using set_p_first_call [OF a, of env param args args' task st kwargs]
      set_p_first_call [OF b, of env param args args' task st kwargs] that by simp
  from a b none g t gc sc show ?thesis by blast
qed

section \<open>Runs on the simulated instrument\<close>

lemmas run_defs =
  sim_vendor_def sim_hw0_def sim_st0_def get_p_def set_p_def set_p_args_def rf_level_args_def
  py_index_def synth_def get_tasks_def set_tasks_def call_get_def call_set_def store_def

theorem synth_lookup_total_witness:
  "(3::int) \<noteq> 1 \<and> (3::int) \<noteq> 2 \<and> synth 3 = None \<and>
   get_p sim_vendor sim_st0 ''frequency'' 3 = (Inl (KeyError (VInt 3)), sim_st0) \<and>
   set_p sim_vendor sim_st0 ''frequency'' 3 [VInt 1500] [] = (Inl (KeyError (VInt 3)), sim_st0) \<and>
   map_of get_tasks ''frequency'' = Some get_frequency \<and>
   new_calls sim_st0 (snd (get_p sim_vendor sim_st0 ''frequency'' 1)) =
     [GetCall get_frequency SYNTH_A] \<and>
   new_calls sim_st0 (snd (get_p sim_vendor sim_st0 ''frequency'' 2)) =
     [GetCall get_frequency SYNTH_B] \<and>
   map_of set_tasks ''frequency'' = Some set_frequency \<and>
   set_p_args sim_vendor ''frequency'' [VInt 1500] = Inr [VInt 1500] \<and>
   (\<exists>rest. new_calls sim_st0 (snd (set_p sim_vendor sim_st0 ''frequency'' 1 [VInt 1500] [])) =
      SetCall set_frequency SYNTH_A [VInt 1500] [] # rest) \<and>
   (\<exists>rest. new_calls sim_st0 (snd (set_p sim_vendor sim_st0 ''frequency'' 2 [VInt 1500] [])) =
      SetCall set_frequency SYNTH_B [VInt 1500] [] # rest)"
proof -
  have h1: "(3::int) \<noteq> 1 \<and> (3::int) \<noteq> 2" by simp
  have h2: "map_of get_tasks ''frequency'' = Some get_frequency" by (simp add: get_tasks_def)
  have h3: "map_of set_tasks ''frequency'' = Some set_frequency \<and>
    set_p_args sim_vendor ''frequency'' [VInt 1500] = Inr [VInt 1500]"
    by (simp add: set_tasks_def set_p_args_def)
  from h1 h2 h3
    synth_lookup_total [of 3 sim_vendor sim_st0 "''frequency''" "[VInt 1500]" "[]"
      get_frequency set_frequency "[VInt 1500]"]
  show ?thesis by blast
qed

theorem get_p_returns_and_caches_witness:
  "synth 1 = Some SYNTH_A \<and>
   map_of get_tasks ''frequency'' = Some get_frequency \<and>
   vget sim_vendor get_frequency SYNTH_A (conn sim_st0) = (Inr (VInt 1500), sim_hw0) \<and>
   status sim_st0 1 = Some Map.empty \<and>
   get_p sim_vendor sim_st0 ''frequency'' 1 =
     (Inr (VInt 1500),
      sim_st0\<lparr>conn := sim_hw0,
              status := (status sim_st0)(1 \<mapsto> [''frequency'' \<mapsto> VInt 1500]),
              trace := trace sim_st0 @ [GetCall get_frequency SYNTH_A]\<rparr>)"
proof -
  have h1: "synth 1 = Some SYNTH_A" by (simp add: synth_def)
  have h2: "map_of get_tasks ''frequency'' = Some get_frequency" by (simp add: get_tasks_def)
  have h3: "vget sim_vendor get_frequency SYNTH_A (conn sim_st0) = (Inr (VInt 1500), sim_hw0)"
    by (simp add: sim_vendor_def sim_st0_def sim_hw0_def)
  have h4: "status sim_st0 1 = Some Map.empty" by (simp add: sim_st0_def)
  note r = get_p_returns_and_caches [OF h1 h2 h3 h4]
  show ?thesis by (intro conjI h1 h2 h3 h4 r)
qed

theorem get_p_frame_witness:
  "(2, ''frequency'') \<noteq> (1::int, ''frequency'') \<and>
   (1, ''label'') \<noteq> (1::int, ''frequency'') \<and>
   dom (status (snd (get_p sim_vendor sim_st0 ''frequency'' 1))) = dom (status sim_st0) \<and>
   cached (snd (get_p sim_vendor sim_st0 ''frequency'' 1)) 2 ''frequency'' =
     cached sim_st0 2 ''frequency'' \<and>
   cached (snd (get_p sim_vendor sim_st0 ''frequency'' 1)) 1 ''label'' =
     cached sim_st0 1 ''label'' \<and>
   cached (snd (get_p sim_vendor sim_st0 ''frequency'' 1)) 1 ''frequency'' = Some (VInt 1500) \<and>
   cached sim_st0 1 ''frequency'' = None"
proof -
  have h1: "(2, ''frequency'') \<noteq> (1::int, ''frequency'')" by simp
  have h2: "(1, ''label'') \<noteq> (1::int, ''frequency'')" by simp
  have c: "cached (snd (get_p sim_vendor sim_st0 ''frequency'' 1)) 1 ''frequency'' = Some (VInt 1500)"
    "cached sim_st0 1 ''frequency'' = None"
    by (simp_all add: run_defs cached_def)
  note f = get_p_frame [of sim_vendor sim_st0 "''frequency''" 1]
  note d = f [THEN conjunct1]
  note e1 = f [THEN conjunct2, rule_format, OF h1]
  note e2 = f [THEN conjunct2, rule_format, OF h2]
  show ?thesis by (intro conjI h1 h2 d e1 e2 c)
qed

theorem set_p_forwards_args_witness:
  "''frequency'' \<noteq> ''rf_level'' \<and> synth 1 = Some SYNTH_A \<and>
   map_of set_tasks ''frequency'' = Some set_frequency \<and>
   map_of get_tasks ''frequency'' = Some get_frequency \<and>
   vset sim_vendor set_frequency SYNTH_A [VInt 1600, VInt 10] [(''chan_spacing'', VInt 10)]
       (conn sim_st0) =
     (Inr (VBool True), sim_hw0((get_frequency, SYNTH_A) \<mapsto> VInt 1600)) \<and>
   SetCall set_frequency SYNTH_A [VInt 1600, VInt 10] [(''chan_spacing'', VInt 10)]
     \<in> set (new_calls sim_st0 (snd (set_p sim_vendor sim_st0 ''frequency'' 1 [VInt 1600, VInt 10]
          [(''chan_spacing'', VInt 10)]))) \<and>
   (\<exists>rest. new_calls sim_st0 (snd (set_p sim_vendor sim_st0 ''frequency'' 1 [VInt 1600, VInt 10]
        [(''chan_spacing'', VInt 10)])) =
      SetCall set_frequency SYNTH_A [VInt 1600, VInt 10] [(''chan_spacing'', VInt 10)] # rest) \<and>
   fst (set_p sim_vendor sim_st0 ''frequency'' 1 [VInt 1600, VInt 10]
        [(''chan_spacing'', VInt 10)]) = Inr (VInt 1600) \<and>
   conn (snd (set_p sim_vendor sim_st0 ''frequency'' 1 [VInt 1600, VInt 10]
        [(''chan_spacing'', VInt 10)])) = sim_hw0((get_frequency, SYNTH_A) \<mapsto> VInt 1600)"
proof -
  have h1: "''frequency'' \<noteq> ''rf_level''" by simp
  have h2: "synth 1 = Some SYNTH_A \<and> map_of set_tasks ''frequency'' = Some set_frequency"
    by (simp add: synth_def set_tasks_def)
  have g: "map_of get_tasks ''frequency'' = Some get_frequency" by (simp add: get_tasks_def)
  have v: "vset sim_vendor set_frequency SYNTH_A [VInt 1600, VInt 10] [(''chan_spacing'', VInt 10)]
       (conn sim_st0) =
     (Inr (VBool True), sim_hw0((get_frequency, SYNTH_A) \<mapsto> VInt 1600))"
    by (simp add: sim_vendor_def sim_st0_def)
  note f = set_p_forwards_args [OF h1, of sim_st0 sim_vendor 1 "[VInt 1600, VInt 10]"
      "[(''chan_spacing'', VInt 10)]" SYNTH_A set_frequency get_frequency "Inr (VBool True)"
      "sim_hw0((get_frequency, SYNTH_A) \<mapsto> VInt 1600)"]
  note r = f [THEN conjunct2, THEN conjunct1, rule_format, OF h2]
  note e = f [THEN conjunct2, THEN conjunct2, rule_format,
      OF conjI [OF h2 [THEN conjunct1] conjI [OF h2 [THEN conjunct2] conjI [OF g v]]]]
  from r obtain rest where
    n: "new_calls sim_st0 (snd (set_p sim_vendor sim_st0 ''frequency'' 1 [VInt 1600, VInt 10]
        [(''chan_spacing'', VInt 10)])) =
      SetCall set_frequency SYNTH_A [VInt 1600, VInt 10] [(''chan_spacing'', VInt 10)] # rest"
    ..
  have m: "SetCall set_frequency SYNTH_A [VInt 1600, VInt 10] [(''chan_spacing'', VInt 10)]
     \<in> set (new_calls sim_st0 (snd (set_p sim_vendor sim_st0 ''frequency'' 1 [VInt 1600, VInt 10]
          [(''chan_spacing'', VInt 10)])))"
    unfolding n by simp
  have x: "fst (set_p sim_vendor sim_st0 ''frequency'' 1 [VInt 1600, VInt 10]
        [(''chan_spacing'', VInt 10)]) = Inr (VInt 1600)"
    unfolding e by (simp add: call_get_eq store_def sim_vendor_def sim_st0_def)
  have y: "conn (snd (set_p sim_vendor sim_st0 ''frequency'' 1 [VInt 1600, VInt 10]
        [(''chan_spacing'', VInt 10)])) = sim_hw0((get_frequency, SYNTH_A) \<mapsto> VInt 1600)"
    unfolding e by (simp add: call_get_eq store_def sim_vendor_def sim_st0_def)
  show ?thesis by (intro conjI h1 h2 [THEN conjunct1] h2 [THEN conjunct2] g v m r x y)
qed

theorem set_p_success_rereads_witness:
  "synth 1 = Some SYNTH_A \<and>
   set_p_args sim_vendor ''rf_level'' [VInt 3] = Inr [VInt 2] \<and>
   map_of set_tasks ''rf_level'' = Some set_rf_level \<and>
   vset sim_vendor set_rf_level SYNTH_A [VInt 2] [] (conn sim_st0) =
     (Inr (VBool True), sim_hw0((get_rf_level, SYNTH_A) \<mapsto> VInt 2)) \<and>
   truthy (VBool True) \<and>
   map_of get_tasks ''rf_level'' = Some get_rf_level \<and>
   vget sim_vendor get_rf_level SYNTH_A (sim_hw0((get_rf_level, SYNTH_A) \<mapsto> VInt 2)) =
     (Inr (VInt 2), sim_hw0((get_rf_level, SYNTH_A) \<mapsto> VInt 2)) \<and>
   status sim_st0 1 = Some Map.empty \<and>
   set_p sim_vendor sim_st0 ''rf_level'' 1 [VInt 3] [] =
     (Inr (VInt 2),
      sim_st0\<lparr>conn := sim_hw0((get_rf_level, SYNTH_A) \<mapsto> VInt 2),
              status := (status sim_st0)(1 \<mapsto> [''rf_level'' \<mapsto> VInt 2]),
              trace := trace sim_st0 @
                [SetCall set_rf_level SYNTH_A [VInt 2] [], GetCall get_rf_level SYNTH_A]\<rparr>)"
proof -
  have h1: "synth 1 = Some SYNTH_A" by (simp add: synth_def)
  have h2: "set_p_args sim_vendor ''rf_level'' [VInt 3] = Inr [VInt 2]"
    by (simp add: set_p_args_def rf_level_args_def sim_vendor_def nearest_index_def py_index_def)
  have h3: "map_of set_tasks ''rf_level'' = Some set_rf_level" by (simp add: set_tasks_def)
  have h4: "vset sim_vendor set_rf_level SYNTH_A [VInt 2] [] (conn sim_st0) =
     (Inr (VBool True), sim_hw0((get_rf_level, SYNTH_A) \<mapsto> VInt 2))"
    by (simp add: sim_vendor_def sim_st0_def)
  have h5: "truthy (VBool True)" by simp
  have h6: "map_of get_tasks ''rf_level'' = Some get_rf_level" by (simp add: get_tasks_def)
  have h7: "vget sim_vendor get_rf_level SYNTH_A (sim_hw0((get_rf_level, SYNTH_A) \<mapsto> VInt 2)) =
     (Inr (VInt 2), sim_hw0((get_rf_level, SYNTH_A) \<mapsto> VInt 2))"
    by (simp add: sim_vendor_def)
  have h8: "status sim_st0 1 = Some Map.empty" by (simp add: sim_st0_def)
  note r = set_p_success_rereads [OF h1 h2 h3 h4 h5 h6 h7 h8]
  show ?thesis by (intro conjI h1 h2 h3 h4 h5 h6 h7 h8 r)
qed

lemma sim_pkeys: "sort (rfl_rev_table_keys sim_vendor) = [- 4, - 1, 2, 5]"
  by (simp add: sim_vendor_def)

theorem set_p_rf_level_nearest_witness:
  "synth 1 = Some SYNTH_A \<and>
   rfl_rev_table_keys sim_vendor \<noteq> [] \<and>
   (\<exists>k. k \<in> set (rfl_rev_table_keys sim_vendor) \<and>
      (\<forall>k' \<in> set (rfl_rev_table_keys sim_vendor). \<bar>k - 3\<bar> \<le> \<bar>k' - 3\<bar>) \<and>
      set_p_args sim_vendor ''rf_level'' [VInt 3] = Inr [VInt k] \<and>
      (\<exists>rest. new_calls sim_st0 (snd (set_p sim_vendor sim_st0 ''rf_level'' 1 [VInt 3] [])) =
         SetCall set_rf_level SYNTH_A [VInt k] [] # rest) \<and>
      set_p sim_vendor sim_st0 ''rf_level'' 1 [VInt 3] [] =
        (case vset sim_vendor set_rf_level SYNTH_A [VInt k] [] (conn sim_st0) of
           (Inl e, h) \<Rightarrow>
             (Inl (case e of Error m \<Rightarrow> Exception ''rf_level'' ''set failed''
                         | BaseError m \<Rightarrow> Raised e),
              sim_st0\<lparr>conn := h,
                      trace := trace sim_st0 @ [SetCall set_rf_level SYNTH_A [VInt k] []]\<rparr>)
         | (Inr success, h) \<Rightarrow>
             if truthy success
             then (case call_get sim_vendor get_rf_level SYNTH_A
                          (sim_st0\<lparr>conn := h,
                                  trace := trace sim_st0 @
                                    [SetCall set_rf_level SYNTH_A [VInt k] []]\<rparr>) of
                     (Inl e, st2) \<Rightarrow> (Inl e, st2)
                   | (Inr v, st2) \<Rightarrow> store st2 1 ''rf_level'' v)
             else (Inl (ObservatoryError ''rf_level'' ''setting failed''),
                   sim_st0\<lparr>conn := h,
                           trace := trace sim_st0 @
                             [SetCall set_rf_level SYNTH_A [VInt k] []]\<rparr>))) \<and>
   set_p_args sim_vendor ''rf_level'' [VInt 3] = Inr [VInt 2] \<and>
   set_p sim_vendor sim_st0 ''rf_level'' 1 [VInt 3] [] =
     (Inr (VInt 2),
      sim_st0\<lparr>conn := sim_hw0((get_rf_level, SYNTH_A) \<mapsto> VInt 2),
              status := (status sim_st0)(1 \<mapsto> [''rf_level'' \<mapsto> VInt 2]),
              trace := trace sim_st0 @
                [SetCall set_rf_level SYNTH_A [VInt 2] [], GetCall get_rf_level SYNTH_A]\<rparr>)"
proof -
  have h1: "synth 1 = Some SYNTH_A" by (simp add: synth_def)
  have h2: "rfl_rev_table_keys sim_vendor \<noteq> []" by (simp add: sim_vendor_def)
  note r = set_p_rf_level_nearest [OF h1 h2, of 3 "[]" sim_st0 "[]"]
  have a: "set_p_args sim_vendor ''rf_level'' [VInt 3] = Inr [VInt 2]"
    by (simp add: set_p_args_def rf_level_args_def sim_pkeys nearest_index_def py_index_def)
  have t: "map_of set_tasks ''rf_level'' = Some set_rf_level" by (simp add: set_tasks_def)
  have g: "map_of get_tasks ''rf_level'' = Some get_rf_level" by (simp add: get_tasks_def)
  have w: "vset sim_vendor set_rf_level SYNTH_A [VInt 2] [] (conn sim_st0) =
     (Inr (VBool True), sim_hw0((get_rf_level, SYNTH_A) \<mapsto> VInt 2))"
    by (simp add: sim_vendor_def sim_st0_def)
  have v: "vget sim_vendor get_rf_level SYNTH_A (sim_hw0((get_rf_level, SYNTH_A) \<mapsto> VInt 2)) =
     (Inr (VInt 2), sim_hw0((get_rf_level, SYNTH_A) \<mapsto> VInt 2))"
    by (simp add: sim_vendor_def)
  have d: "status sim_st0 1 = Some Map.empty" by (simp add: sim_st0_def)
  have tr: "truthy (VBool True)" by simp
  note c = set_p_success [OF h1 a t w tr g v d]
  show ?thesis by (intro conjI h1 h2 r a c)
qed

theorem dispatch_tables_witness:
  "synth 2 = Some SYNTH_B \<and>
   map_of get_tasks ''label'' = Some get_label \<and>
   map_of set_tasks ''label'' = Some set_label \<and>
   set_p_args sim_vendor ''label'' [VStr ''LO''] = Inr [VStr ''LO''] \<and>
   new_calls sim_st0 (snd (get_p sim_vendor sim_st0 ''label'' 2)) = [GetCall get_label SYNTH_B] \<and>
   (\<exists>rest. new_calls sim_st0 (snd (set_p sim_vendor sim_st0 ''label'' 2 [VStr ''LO''] [])) =
      SetCall set_label SYNTH_B [VStr ''LO''] [] # rest) \<and>
   set_p sim_vendor sim_st0 ''phase lock'' 2 [VStr ''LO''] [] =
     (Inl (Exception ''phase lock'' ''set failed''), sim_st0)"
proof -
  have h1: "synth 2 = Some SYNTH_B" by (simp add: synth_def)
  have h2: "map_of get_tasks ''label'' = Some get_label" by (simp add: get_tasks_def)
  have h3: "map_of set_tasks ''label'' = Some set_label \<and>
    set_p_args sim_vendor ''label'' [VStr ''LO''] = Inr [VStr ''LO'']"
    by (simp add: set_tasks_def set_p_args_def)
  note d = dispatch_tables [of 2 SYNTH_B "''label''" get_label sim_st0 sim_vendor set_label
      "[VStr ''LO'']" "[VStr ''LO'']" "[]"]
  note r = d [THEN conjunct2, THEN conjunct2, THEN conjunct2, THEN conjunct2, THEN conjunct2,
      THEN conjunct2, THEN conjunct2, THEN conjunct2, THEN conjunct2, THEN conjunct2,
      THEN conjunct2, THEN conjunct2, rule_format, OF h1]
  note r1 = r [THEN conjunct1, rule_format, OF h2]
  note r2 = r [THEN conjunct2, THEN conjunct1, rule_format, OF h3]
  note r3 = r [THEN conjunct2, THEN conjunct2]
  show ?thesis by (intro conjI h1 h2 h3 [THEN conjunct1] h3 [THEN conjunct2] r1 r2 r3)
qed

theorem set_phase_lock_counterexample:
  "map_of set_tasks ''phase lock'' = None \<and>
   set_p sim_vendor sim_st0 ''phase lock'' 1 [VBool True] [] =
     (Inl (Exception ''phase lock'' ''set failed''), sim_st0) \<and>
   new_calls sim_st0 (snd (set_p sim_vendor sim_st0 ''phase lock'' 1 [VBool True] [])) = []"
proof -
  have t: "map_of set_tasks ''phase lock'' = None" by (simp add: set_tasks_def)
  have s: "set_p sim_vendor sim_st0 ''phase lock'' 1 [VBool True] [] =
     (Inl (Exception ''phase lock'' ''set failed''), sim_st0)"
    by (simp add: set_p_def synth_def set_p_args_def t)
  show ?thesis by (simp add: t s)
qed

theorem set_p_failures_witness:
  "isl (fst (set_p sim_vendor sim_st0 ''frequency'' 1 [VInt 9000] [])) \<and>
   status (snd (set_p sim_vendor sim_st0 ''frequency'' 1 [VInt 9000] [])) = status sim_st0 \<and>
   synth 1 = Some SYNTH_A \<and>
   set_p_args sim_vendor ''frequency'' [VInt 9000] = Inr [VInt 9000] \<and>
   fst (set_p sim_vendor sim_st0 ''frequency'' 1 [VInt 9000] []) =
     Inl (ObservatoryError ''frequency'' ''setting failed'') \<and>
   set_p_args sim_vendor ''label'' [] = Inr [] \<and>
   fst (set_p sim_vendor sim_st0 ''label'' 1 [] []) = Inl (Exception ''label'' ''set failed'') \<and>
   set_p_args sim_interrupted ''label'' [VStr ''LO''] = Inr [VStr ''LO''] \<and>
   map_of set_tasks ''label'' = Some set_label \<and>
   vset sim_interrupted set_label SYNTH_A [VStr ''LO''] [] (conn sim_st0) =
     (Inl (BaseError ''KeyboardInterrupt''), sim_hw0) \<and>
   set_p sim_interrupted sim_st0 ''label'' 1 [VStr ''LO''] [] =
     (Inl (Raised (BaseError ''KeyboardInterrupt'')),
      sim_st0\<lparr>conn := sim_hw0,
              trace := trace sim_st0 @ [SetCall set_label SYNTH_A [VStr ''LO''] []]\<rparr>) \<and>
   set_p_args sim_silent ''label'' [VStr ''LO''] = Inr [VStr ''LO''] \<and>
   vset sim_silent set_label SYNTH_A [VStr ''LO''] [] (conn sim_st0) =
     (Inr (VBool True), sim_hw0((get_label, SYNTH_A) \<mapsto> VStr ''LO'')) \<and>
   truthy (VBool True) \<and>
   map_of get_tasks ''label'' = Some get_label \<and>
   vget sim_silent get_label SYNTH_A (sim_hw0((get_label, SYNTH_A) \<mapsto> VStr ''LO'')) =
     (Inl (Error ''no reply''), sim_hw0((get_label, SYNTH_A) \<mapsto> VStr ''LO'')) \<and>
   set_p sim_silent sim_st0 ''label'' 1 [VStr ''LO''] [] =
     (Inl (Raised (Error ''no reply'')),
      sim_st0\<lparr>conn := sim_hw0((get_label, SYNTH_A) \<mapsto> VStr ''LO''),
              trace := trace sim_st0 @
                [SetCall set_label SYNTH_A [VStr ''LO''] [], GetCall get_label SYNTH_A]\<rparr>) \<and>
   synth 3 = None \<and>
   set_p sim_vendor sim_st0 ''frequency'' 3 [VInt 1500] [] = (Inl (KeyError (VInt 3)), sim_st0) \<and>
   set_p sim_vendor sim_st0 ''rf_level'' 1 [] [] = (Inl IndexError, sim_st0)"
proof -
  have s1: "synth 1 = Some SYNTH_A" by (simp add: synth_def)
  have s3: "synth 3 = None" by (simp add: synth_def)
  have a1: "set_p_args sim_vendor ''frequency'' [VInt 9000] = Inr [VInt 9000]"
    by (simp add: set_p_args_def)
  have a2: "set_p_args sim_vendor ''label'' [] = Inr []" by (simp add: set_p_args_def)
  have a3: "set_p_args sim_interrupted ''label'' [VStr ''LO''] = Inr [VStr ''LO'']"
    by (simp add: set_p_args_def)
  have a4: "set_p_args sim_silent ''label'' [VStr ''LO''] = Inr [VStr ''LO'']"
    by (simp add: set_p_args_def)
  have tf: "map_of set_tasks ''frequency'' = Some set_frequency" by (simp add: set_tasks_def)
  have tl: "map_of set_tasks ''label'' = Some set_label" by (simp add: set_tasks_def)
  have gl: "map_of get_tasks ''label'' = Some get_label" by (simp add: get_tasks_def)
  have tr: "truthy (VBool True)" by simp
  have w1: "fst (vset sim_vendor set_frequency SYNTH_A [VInt 9000] [] (conn sim_st0)) =
      Inr (VBool False)"
    by (simp add: sim_vendor_def)
  have w2: "fst (vset sim_vendor set_label SYNTH_A [] [] (conn sim_st0)) =
      Inl (Error ''missing argument'')"
    by (simp add: sim_vendor_def)
  have w3: "vset sim_interrupted set_label SYNTH_A [VStr ''LO''] [] (conn sim_st0) =
     (Inl (BaseError ''KeyboardInterrupt''), sim_hw0)"
    by (simp add: sim_interrupted_def sim_st0_def)
  have w4: "vset sim_silent set_label SYNTH_A [VStr ''LO''] [] (conn sim_st0) =
     (Inr (VBool True), sim_hw0((get_label, SYNTH_A) \<mapsto> VStr ''LO''))"
    by (simp add: sim_silent_def sim_vendor_def sim_st0_def)
  have v4: "vget sim_silent get_label SYNTH_A (sim_hw0((get_label, SYNTH_A) \<mapsto> VStr ''LO'')) =
     (Inl (Error ''no reply''), sim_hw0((get_label, SYNTH_A) \<mapsto> VStr ''LO''))"
    by (simp add: sim_silent_def)
  note f1 = set_p_failures [of sim_vendor sim_st0 "''frequency''" 1 "[VInt 9000]" "[]" SYNTH_A
      "[VInt 9000]"]
  from f1 [THEN conjunct2, THEN conjunct1, rule_format, OF conjI [OF s1 a1], THEN conjunct2] tf w1
  have e1: "fst (set_p sim_vendor sim_st0 ''frequency'' 1 [VInt 9000] []) =
     Inl (ObservatoryError ''frequency'' ''setting failed'')"
    by simp
  from e1 have i1: "isl (fst (set_p sim_vendor sim_st0 ''frequency'' 1 [VInt 9000] []))"
    by simp
  note u1 = f1 [THEN conjunct1, rule_format, OF i1]
  note f2 = set_p_failures [of sim_vendor sim_st0 "''label''" 1 "[]" "[]" SYNTH_A "[]"]
  from f2 [THEN conjunct2, THEN conjunct1, rule_format, OF conjI [OF s1 a2], THEN conjunct1] tl w2
  have e2: "fst (set_p sim_vendor sim_st0 ''label'' 1 [] []) =
     Inl (Exception ''label'' ''set failed'')"
    by simp
  note e3 = set_p_failures [of sim_interrupted sim_st0 "''label''" 1 "[VStr ''LO'']" "[]" SYNTH_A
      "[VStr ''LO'']" set_label "''KeyboardInterrupt''" sim_hw0,
      THEN conjunct2, THEN conjunct2, THEN conjunct1, rule_format,
      OF conjI [OF s1 conjI [OF a3 conjI [OF tl w3]]]]
  note e4 = set_p_failures [of sim_silent sim_st0 "''label''" 1 "[VStr ''LO'']" "[]" SYNTH_A
      "[VStr ''LO'']" set_label _ "sim_hw0((get_label, SYNTH_A) \<mapsto> VStr ''LO'')" "VBool True"
      get_label "Error ''no reply''" "sim_hw0((get_label, SYNTH_A) \<mapsto> VStr ''LO'')",
      THEN conjunct2, THEN conjunct2, THEN conjunct2, THEN conjunct1, rule_format,
      OF conjI [OF s1 conjI [OF a4 conjI [OF tl conjI [OF w4 conjI [OF tr conjI [OF gl v4]]]]]]]
  note e5 = set_p_failures [of sim_vendor sim_st0 "''frequency''" 3 "[VInt 1500]" "[]",
      THEN conjunct2, THEN conjunct2, THEN conjunct2, THEN conjunct2, THEN conjunct1,
      rule_format, OF s3]
  note e6 = set_p_failures [of sim_vendor sim_st0 _ 1 _ "[]" SYNTH_A,
      THEN conjunct2, THEN conjunct2, THEN conjunct2, THEN conjunct2, THEN conjunct2,
      rule_format, OF s1]
  show ?thesis
    by (intro conjI i1 u1 s1 a1 e1 a2 e2 a3 tl w3 e3 a4 w4 tr gl v4 e4 s3 e5 e6)
qed

theorem set_p_KeyError_counterexample:
  "fst (set_p sim_vendor sim_st0 ''frequency'' 3 [VInt 1500] []) = Inl (KeyError (VInt 3)) \<and>
   KeyError (VInt 3) \<noteq> Exception ''frequency'' ''set failed'' \<and>
   KeyError (VInt 3) \<noteq> ObservatoryError ''frequency'' ''setting failed''"
  by (simp add: set_p_def synth_def)

lemma sim_init_ok: "fst (Valon5007_init sim_vendor sim_hw0) = Inr ()"
  by code_simp

lemma sim_st0_inv: "status_inv sim_st0"
  by (auto simp: status_inv_def sim_st0_def split: if_splits)

lemma sim_keys: "set (keys_order sim_vendor) = fst ` set get_tasks"
  by (auto simp: sim_vendor_def get_tasks_def)

theorem status_invariant_witness:
  "status_inv sim_st0 \<and>
   status_inv (snd (get_p sim_vendor sim_st0 ''frequency'' 1)) \<and>
   status_inv (snd (set_p sim_vendor sim_st0 ''rf_level'' 2 [VInt 3] [])) \<and>
   status_inv (snd (update_synth_status sim_vendor sim_st0 1)) \<and>
   status_inv (snd (Valon5007_init sim_vendor sim_hw0)) \<and>
   set (keys_order sim_vendor) = fst ` set get_tasks \<and>
   fst (Valon5007_init sim_vendor sim_hw0) = Inr () \<and>
   status_full (snd (Valon5007_init sim_vendor sim_hw0)) \<and>
   status_full (snd (get_p sim_vendor (snd (Valon5007_init sim_vendor sim_hw0)) ''label'' 2)) \<and>
   status_full (snd (set_p sim_vendor (snd (Valon5007_init sim_vendor sim_hw0)) ''rf_level'' 1
     [VInt 0] [])) \<and>
   status_full (snd (update_synth_status sim_vendor (snd (Valon5007_init sim_vendor sim_hw0)) 2))"
proof -
  note a = status_invariant [of sim_st0 sim_vendor "''frequency''" 1 "[]" "[]" sim_hw0]
  note b = status_invariant [of sim_st0 sim_vendor "''rf_level''" 2 "[VInt 3]" "[]" sim_hw0]
  note a1 = a [THEN conjunct1, rule_format, OF sim_st0_inv]
  note b1 = b [THEN conjunct1, rule_format, OF sim_st0_inv]
  note i = a [THEN conjunct2, THEN conjunct2, THEN conjunct1]
  note f = a [THEN conjunct2, THEN conjunct2, THEN conjunct2, rule_format,
      OF conjI [OF sim_keys sim_init_ok]]
  note c = status_invariant [of "snd (Valon5007_init sim_vendor sim_hw0)" sim_vendor "''label''" 2
      "[]" "[]" sim_hw0, THEN conjunct2, THEN conjunct1, rule_format, OF f]
  note d = status_invariant [of "snd (Valon5007_init sim_vendor sim_hw0)" sim_vendor
      "''rf_level''" 1 "[VInt 0]" "[]" sim_hw0, THEN conjunct2, THEN conjunct1, rule_format, OF f]
  note e = status_invariant [of "snd (Valon5007_init sim_vendor sim_hw0)" sim_vendor
      "''label''" 2 "[]" "[]" sim_hw0, THEN conjunct2, THEN conjunct1, rule_format, OF f]
  show ?thesis
    by (intro conjI sim_st0_inv a1 [THEN conjunct1] b1 [THEN conjunct2, THEN conjunct1]
        a1 [THEN conjunct2, THEN conjunct2] i sim_keys sim_init_ok f c [THEN conjunct1]
        d [THEN conjunct2, THEN conjunct1] e [THEN conjunct2, THEN conjunct2])
qed

end
